theory Spec2Isabelle
  imports Main "HOL-Library.Word" "HOL-Library.Multiset"
begin

unbundle bit_operations_syntax

section \<open>Machine words and byte-addressed memory\<close>

text \<open>
  The kernel targets 32-bit x86: \<open>int\<close>, \<open>uint32_t\<close>, \<open>size_t\<close>, \<open>uintptr_t\<close> and every
  pointer are 32 bits wide, \<open>char\<close> is one byte. Arithmetic on them wraps modulo \<open>2^32\<close>.
\<close>

type_synonym u32 = "32 word"
type_synonym byte = "8 word"
type_synonym memory = "u32 \<Rightarrow> byte"

text \<open>A C string is represented by the bytes that precede its terminating NUL.\<close>

type_synonym cstring = "byte list"

definition strlen :: "cstring \<Rightarrow> u32" where
  "strlen s = of_nat (length s)"

text \<open>
  Modelled from the spec: the declaration of \<open>pt_regs\<close> (the trap frame pushed by the
  interrupt stubs) is not among the sources; it is the x86 register set.
\<close>

record pt_regs =
  gs :: u32
  fs :: u32
  es :: u32
  ds :: u32
  edi :: u32
  esi :: u32
  ebp :: u32
  esp :: u32
  ebx :: u32
  edx :: u32
  ecx :: u32
  eax :: u32
  int_no :: u32
  err_code :: u32
  eip :: u32
  cs :: u32
  eflags :: u32
  useresp :: u32
  ss :: u32

section \<open>process.c: argument marshalling\<close>

text \<open>
  Modelled from the spec: the macro \<open>PUSH_VALUE_ON_STACK\<close> (klib/stack_helper.h) is not among
  the sources. It moves the stack pointer down by the size of the pushed value and stores the
  value at the new location: one byte for a \<open>char\<close>, four bytes (little endian) for a pointer
  or an \<open>int\<close>.
\<close>

type_synonym stack = "u32 \<times> memory"

definition push_char :: "stack \<Rightarrow> byte \<Rightarrow> stack" where
  "push_char st c = (let sp = fst st - 1 in (sp, (snd st)(sp := c)))"

definition store_u32 :: "memory \<Rightarrow> u32 \<Rightarrow> u32 \<Rightarrow> memory" where
  "store_u32 m a v =
     m(a := ucast v, a + 1 := ucast (drop_bit 8 v),
       a + 2 := ucast (drop_bit 16 v), a + 3 := ucast (drop_bit 24 v))"

definition load_u32 :: "memory \<Rightarrow> u32 \<Rightarrow> u32" where
  "load_u32 m a =
     ucast (m a) OR push_bit 8 (ucast (m (a + 1))) OR
     push_bit 16 (ucast (m (a + 2))) OR push_bit 24 (ucast (m (a + 3)))"

definition push_u32 :: "stack \<Rightarrow> u32 \<Rightarrow> stack" where
  "push_u32 st v = (let sp = fst st - 4 in (sp, store_u32 (snd st) sp v))"

text \<open>\<open>__count_args\<close>: the number of entries before the terminating NULL.\<close>

definition count_args :: "cstring list \<Rightarrow> u32" where
  "count_args args = of_nat (length args)"

text \<open>The loop of \<open>__count_args_bytes\<close>: \<open>nchar += strlen(args[i]) + 1\<close>.\<close>

fun count_chars :: "cstring list \<Rightarrow> u32 \<Rightarrow> u32" where
  "count_chars [] nchar = nchar"
| "count_chars (a # rest) nchar = count_chars rest (nchar + (strlen a + 1))"

text \<open>\<open>__count_args_bytes\<close>; \<open>sizeof(char *)\<close> is 4.\<close>

definition count_args_bytes :: "cstring list \<Rightarrow> u32" where
  "count_args_bytes args = count_chars args 0 + (count_args args + 1) * 4"

text \<open>
  The inner loop of \<open>__push_args_on_stack\<close>,
  \<open>for (int j = strlen(args[i]); j >= 0; --j) PUSH_VALUE_ON_STACK(*stack, args[i][j])\<close>:
  the terminating NUL goes first, then the characters from the last to the first. The
  counter is a signed \<open>int\<close>, so the loop body never runs when the length read as a signed
  number is negative.
\<close>

fun push_chars :: "byte list \<Rightarrow> stack \<Rightarrow> stack" where
  "push_chars [] st = st"
| "push_chars (c # rest) st = push_chars rest (push_char st c)"

definition push_arg :: "cstring \<Rightarrow> stack \<Rightarrow> stack" where
  "push_arg s st = (if 0 \<le> sint (strlen s) then push_chars (0 # rev s) st else st)"

text \<open>
  The first loop, \<open>for (int i = argc - 1; i >= 0; --i)\<close>: pushes the strings from the last to
  the first and records where each one starts (\<open>args_location[i]\<close>). The result lists the
  locations in index order.
\<close>

fun push_strings :: "cstring list \<Rightarrow> stack \<Rightarrow> stack \<times> u32 list" where
  "push_strings [] st = (st, [])"
| "push_strings (a # rest) st =
     (let (st1, locs) = push_strings rest st;
          st2 = push_arg a st1
      in (st2, fst st2 # locs))"

text \<open>The last loop pushes \<open>args_location[argc - 1]\<close> down to \<open>args_location[0]\<close>.\<close>

fun push_locations :: "u32 list \<Rightarrow> stack \<Rightarrow> stack" where
  "push_locations [] st = st"
| "push_locations (l # rest) st = push_u32 (push_locations rest st) l"

text \<open>
  Ways in which a call of process.c does not return: \<open>kernel_panic\<close>, a failed \<open>assert\<close>,
  a write past the end of a fixed-size local array and the dereference of a null pointer
  (both undefined in C).
\<close>

datatype abort =
  KernelPanic | AssertionFailed | ArgsLocationOverflow | BufferOverflow | NullDereference

text \<open>
  \<open>__push_args_on_stack\<close>. The local array \<open>char *args_location[256]\<close> holds one slot per
  argument and nothing checks \<open>argc\<close> against it: with more than 256 arguments the function
  writes past the array, which C leaves undefined; the model reports it as a fault. On
  success the result is the updated stack; its pointer is the returned \<open>char **\<close>.
\<close>

definition push_args_on_stack :: "stack \<Rightarrow> cstring list \<Rightarrow> abort + stack" where
  "push_args_on_stack st args =
     (if 256 < length args then Inl ArgsLocationOverflow
      else let (st1, locs) = push_strings args st;
               st2 = push_u32 st1 0
           in Inr (push_locations locs st2))"

section \<open>process.c: tasks\<close>

text \<open>
  Modelled from the spec: the declarations of \<open>vm_area_struct_t\<close>, \<open>mm_struct_t\<close> and
  \<open>task_struct\<close> are not among the sources. The records keep the fields that the functions
  below read or write. Of a task, the file-descriptor table, the scheduling entity, the
  signal tables, the timers, the terminal settings and the keyboard buffer are set up by
  \<open>__alloc_task\<close> and not looked at again here; they are left out. A pointer to a task is
  its pid; the children of a task are the tasks whose parent it is. \<open>mmap_cache\<close> points to
  an area of \<open>mmap_list\<close> and is its index there.
\<close>

record vm_area_struct =
  vm_start :: u32
  vm_end :: u32
  vm_flags :: u32

record mm_struct =
  mm_pgd :: u32
  mmap_list :: "vm_area_struct list"
  mmap_cache :: "nat option"
  start_stack :: u32
  arg_start :: u32
  arg_end :: u32
  env_start :: u32
  env_end :: u32

datatype task_state = TASK_RUNNING | TASK_SLEEPING | TASK_STOPPED | TASK_ZOMBIE

record task_struct =
  task_pid :: u32
  task_state :: task_state
  task_parent :: "u32 option"
  task_regs :: pt_regs
  task_uid :: u32
  task_ruid :: u32
  task_gid :: u32
  task_rgid :: u32
  task_sid :: u32
  task_pgid :: u32
  task_name :: cstring
  task_cwd :: cstring
  task_mm :: "mm_struct option"
  task_exit_code :: int
  task_error_no :: int

definition zero_regs :: pt_regs where
  "zero_regs = \<lparr>gs = 0, fs = 0, es = 0, ds = 0, edi = 0, esi = 0, ebp = 0, esp = 0, ebx = 0,
                 edx = 0, ecx = 0, eax = 0, int_no = 0, err_code = 0, eip = 0, cs = 0,
                 eflags = 0, useresp = 0, ss = 0\<rparr>"

text \<open>
  \<open>__alloc_task(source, parent, name)\<close>: the structure is cleared, then filled in. The new
  pid comes from \<open>pid_manager_get_free_pid\<close>, which is not among the sources and is given
  as the first argument.
\<close>

definition alloc_task ::
  "u32 \<Rightarrow> task_struct option \<Rightarrow> u32 option \<Rightarrow> cstring option \<Rightarrow> task_struct" where
  "alloc_task free_pid source parent name =
     \<lparr>task_pid = free_pid,
      task_state = TASK_RUNNING,
      task_parent = parent,
      task_regs = (case source of Some src \<Rightarrow> task_regs src | None \<Rightarrow> zero_regs),
      task_uid = 0, task_ruid = 0, task_gid = 0, task_rgid = 0, task_sid = 0, task_pgid = 0,
      task_name = (case name of Some n \<Rightarrow> n | None \<Rightarrow> []),
      task_cwd = (case source of Some src \<Rightarrow> task_cwd src | None \<Rightarrow> [0x2F]),
      task_mm = None,
      task_exit_code = 0,
      task_error_no = 0\<rparr>"


definition scheduler_restore_context :: "task_struct \<Rightarrow> pt_regs \<Rightarrow> pt_regs" where
  "scheduler_restore_context task f = task_regs task"

text \<open>
  The scheduler as far as \<open>sys_fork\<close> uses it: the current process, the tasks handed to
  \<open>scheduler_enqueue_task\<close> in order, and the pid that \<open>pid_manager_get_free_pid\<close> returns
  next.
\<close>

record scheduler =
  current :: "task_struct option"
  run_queue :: "task_struct list"
  free_pid :: u32


section \<open>process.c: loading an executable\<close>

text \<open>
  The collaborators of \<open>exec\<close> that are not among the sources, as parameters: the VFS
  (\<open>vfs_open\<close> with the error number it leaves in \<open>errno\<close> on failure,
  \<open>vfs_valid_exec_permission\<close>), the
  ELF loader (\<open>elf_check_file_type(file, ET_EXEC)\<close> is a field of the file, \<open>elf_load_file\<close>
  gives its return value and the entry point it stores), and the constants of the headers.
\<close>

record vfs_file =
  file_mask :: u32
  file_uid :: u32
  file_gid :: u32
  file_content :: "byte list"
  file_is_elf_exec :: bool

record exec_env =
  vfs_open :: "cstring \<Rightarrow> vfs_file option"
  vfs_errno :: "cstring \<Rightarrow> nat"
  vfs_valid_exec_permission :: "task_struct \<Rightarrow> vfs_file \<Rightarrow> bool"
  elf_load_file :: "task_struct \<Rightarrow> vfs_file \<Rightarrow> int \<times> u32"
  PATH_MAX :: nat
  NAME_MAX :: nat
  S_ISUID :: u32
  S_ISGID :: u32
  EFLAG_IF :: u32
  DEFAULT_STACK_SIZE :: u32

definition EACCES :: int where "EACCES = 13"
definition ENOEXEC :: int where "ENOEXEC = 8"
definition ENOMEM :: int where "ENOMEM = 12"
definition ELOOP :: int where "ELOOP = 40"
definition ENAMETOOLONG :: int where "ENAMETOOLONG = 36"

text \<open>
  What \<open>exec\<close> does to its collaborators, in order: \<open>mm_destroy\<close>, \<open>mm_create_blank\<close>,
  \<open>vfs_close\<close> (by the path the file was opened with) and \<open>kfree\<close> (of a block, or of the
  duplicated interpreter path).
\<close>

datatype exec_event =
    MmDestroy mm_struct
  | MmCreateBlank
  | VfsClose cstring
  | Kfree u32
  | KfreePath cstring

text \<open>
  The state \<open>exec\<close> works on: the current task, the memory, the events so far, and the
  results of the coming calls of \<open>mm_create_blank\<close> and \<open>kmalloc\<close> (\<open>None\<close> and 0 are
  \<open>NULL\<close>; an exhausted list yields \<open>NULL\<close>).
\<close>

record exec_state =
  xtask :: task_struct
  xmem :: memory
  xevents :: "exec_event list"
  blank_mms :: "mm_struct option list"
  kmalloc_pool :: "u32 list"

definition xemit :: "exec_event \<Rightarrow> exec_state \<Rightarrow> exec_state" where
  "xemit e st = st\<lparr>xevents := xevents st @ [e]\<rparr>"

definition mm_create_blank :: "exec_state \<Rightarrow> mm_struct option \<times> exec_state" where
  "mm_create_blank st =
     (case blank_mms st of
        [] \<Rightarrow> (None, xemit MmCreateBlank st)
      | m # ms \<Rightarrow> (m, xemit MmCreateBlank (st\<lparr>blank_mms := ms\<rparr>)))"

definition kmalloc :: "exec_state \<Rightarrow> u32 \<times> exec_state" where
  "kmalloc st =
     (case kmalloc_pool st of [] \<Rightarrow> (0, st) | b # bs \<Rightarrow> (b, st\<lparr>kmalloc_pool := bs\<rparr>))"

definition memset :: "memory \<Rightarrow> u32 \<Rightarrow> byte \<Rightarrow> u32 \<Rightarrow> memory" where
  "memset m start c n = (\<lambda>a. if a - start < n then c else m a)"

text \<open>\<open>__reset_process\<close>: 0 on failure, 1 otherwise.\<close>

definition reset_process :: "exec_env \<Rightarrow> exec_state \<Rightarrow> int \<times> exec_state" where
  "reset_process E st =
     (let (new_mm, st1) = mm_create_blank st;
          st2 = st1\<lparr>xtask := (xtask st1)\<lparr>task_mm := new_mm\<rparr>\<rparr>
      in case new_mm of
           None \<Rightarrow> (0, st2)
         | Some m \<Rightarrow>
             (let st3 = st2\<lparr>xmem := memset (xmem st2) (start_stack m) 0 (DEFAULT_STACK_SIZE E)\<rparr>;
                  r = task_regs (xtask st3);
                  r1 = r\<lparr>ebp := start_stack m + DEFAULT_STACK_SIZE E\<rparr>;
                  r2 = r1\<lparr>useresp := ebp r1\<rparr>;
                  r3 = r2\<lparr>eflags := eflags r2 OR EFLAG_IF E\<rparr>
              in (1, st3\<lparr>xtask := (xtask st3)\<lparr>task_regs := r3\<rparr>\<rparr>)))"

text \<open>
  \<open>__has_shebang\<close> compares the first two bytes read from the file with \<open>#!\<close>. (For a file
  shorter than two bytes the source compares bytes it never initialised; the model takes
  them to differ from \<open>#!\<close>.)
\<close>

definition has_shebang :: "vfs_file \<Rightarrow> bool" where
  "has_shebang file = (take 2 (file_content file) = [0x23, 0x21])"

text \<open>\<open>vfs_read(file, buf, offset, nbytes)\<close> on the content of a regular file.\<close>

definition vfs_read :: "vfs_file \<Rightarrow> nat \<Rightarrow> nat \<Rightarrow> byte list" where
  "vfs_read file offset nbytes = take nbytes (drop offset (file_content file))"

text \<open>
  The block of \<open>__load_executable\<close> that reads the shebang line:
  \<open>bytes_read = vfs_read(file, buf, 2, sizeof(buf)); buf[bytes_read] = 0;\<close> and then
  \<open>strchr(buf, '\n')\<close>. The line end is looked for among the bytes read, up to the first
  NUL. (When the read fills \<open>char buf[PATH_MAX]\<close> the terminating NUL is stored one byte past
  the buffer, where \<open>strchr\<close> still stops.) \<open>None\<close> stands for \<open>lineend == NULL\<close>, otherwise the
  result is the interpreter path, the line without its end.
\<close>

definition read_shebang_line :: "exec_env \<Rightarrow> vfs_file \<Rightarrow> cstring option" where
  "read_shebang_line E file =
     (let buf = vfs_read file 2 (PATH_MAX E);
          line = takeWhile (\<lambda>c. c \<noteq> 0) buf
      in if 0x0A \<in> set line then Some (takeWhile (\<lambda>c. c \<noteq> 0x0A) line) else None)"

text \<open>
  The middle of \<open>__load_executable\<close>, between the checks of the file and the look at the
  shebang: the set-uid and set-gid bits of the file override the effective ids, the old
  \<open>mm\<close> is destroyed if there is one, and \<open>__reset_process\<close> builds the new one.
  \<open>bitmask_check(v, m)\<close> tests \<open>v & m\<close>.
\<close>

definition replace_image :: "exec_env \<Rightarrow> vfs_file \<Rightarrow> exec_state \<Rightarrow> int \<times> exec_state" where
  "replace_image E file st =
     (let st1 = (if file_mask file AND S_ISUID E \<noteq> 0
                 then st\<lparr>xtask := (xtask st)\<lparr>task_uid := file_uid file\<rparr>\<rparr> else st);
          st2 = (if file_mask file AND S_ISGID E \<noteq> 0
                 then st1\<lparr>xtask := (xtask st1)\<lparr>task_gid := file_gid file\<rparr>\<rparr> else st1);
          st3 = (case task_mm (xtask st2) of
                   Some m \<Rightarrow> xemit (MmDestroy m) st2
                 | None \<Rightarrow> st2)
      in reset_process E st3)"

text \<open>
  \<open>__load_executable\<close>, from the label \<open>start\<close>. \<open>interpreter_loop\<close> counts the interpreters
  followed so far; \<open>goto start\<close> is the recursive call. The result is the return value
  (\<open>-errno\<close> or 0 on failure, 1 on success, 2 if an interpreter was loaded) and the state.
  \<open>strdup\<close> of the interpreter path is taken to succeed.
\<close>

function load_executable_from ::
  "exec_env \<Rightarrow> nat \<Rightarrow> cstring \<Rightarrow> exec_state \<Rightarrow> abort + (int \<times> exec_state)" where
  "load_executable_from E interpreter_loop path st =
     (case vfs_open E path of
        None \<Rightarrow> Inr (- int (vfs_errno E path), st)
      | Some file \<Rightarrow>
          if \<not> vfs_valid_exec_permission E (xtask st) file then
            Inr (- EACCES, xemit (VfsClose path) st)
          else if \<not> (file_is_elf_exec file \<or> has_shebang file) then
            Inr (- ENOEXEC, xemit (VfsClose path) st)
          else
            (let (ok, st4) = replace_image E file st in
             if ok = 0 then Inr (- ENOMEM, xemit (VfsClose path) st4)
             else if has_shebang file then
               (if interpreter_loop \<noteq> 0 then
                  Inr (- ELOOP, xemit (VfsClose path) (xemit (KfreePath path) st4))
                else
                  (let st5 = xemit (VfsClose path) st4 in
                   case read_shebang_line E file of
                     None \<Rightarrow> Inr (- ENAMETOOLONG, xemit (VfsClose path) st5)
                   | Some interpreter \<Rightarrow>
                       load_executable_from E (interpreter_loop + 1) interpreter st5))
             else
               (let (ret, entry) = elf_load_file E (xtask st4) file;
                    st5 = st4\<lparr>xtask := (xtask st4)\<lparr>task_regs :=
                                  (task_regs (xtask st4))\<lparr>eip := entry\<rparr>\<rparr>\<rparr>
                in
                if interpreter_loop \<noteq> 0 then
                  Inr (2, xemit (VfsClose path) (xemit (KfreePath path) st5))
                else Inr (ret, xemit (VfsClose path) st5))))"
  by pat_completeness auto
termination
  by (relation "measure (\<lambda>(E, interpreter_loop, path, st). 1 - interpreter_loop)") auto

declare load_executable_from.simps [simp del]

definition load_executable ::
  "exec_env \<Rightarrow> cstring \<Rightarrow> exec_state \<Rightarrow> abort + (int \<times> exec_state)" where
  "load_executable E path st = load_executable_from E 0 path st"

section \<open>process.c: sys\_execve\<close>

text \<open>
  The copy of two argument arrays into a kernel block, as \<open>sys_execve\<close> does it twice:
  the pointer starts \<open>nbytes\<close> bytes above the start of the block, both arrays are pushed,
  and \<open>assert\<close> compares the pointer with the start of the block.
\<close>

definition copy_args_to_block ::
  "u32 \<Rightarrow> u32 \<Rightarrow> cstring list \<Rightarrow> cstring list \<Rightarrow> memory \<Rightarrow> abort + memory" where
  "copy_args_to_block args_mem nbytes argv envp m =
     (case push_args_on_stack (args_mem + nbytes, m) argv of
        Inl a \<Rightarrow> Inl a
      | Inr st1 \<Rightarrow>
          (case push_args_on_stack st1 envp of
             Inl a \<Rightarrow> Inl a
           | Inr st2 \<Rightarrow> if fst st2 = args_mem then Inr (snd st2) else Inl AssertionFailed))"

text \<open>
  The branch \<open>ret == 2\<close> of \<open>sys_execve\<close>: the argument array for the interpreter.
  \<open>int_argv[0]\<close> is \<open>saved_argv[0]\<close>, \<open>int_argv[1]\<close> the saved file name, and the loop copies
  \<open>saved_argv[1]\<close> to \<open>saved_argv[argc]\<close> (the terminating NULL) behind them. \<open>None\<close> stands
  for \<open>return -1\<close>; otherwise the result is the new \<open>argc\<close>, the new \<open>saved_argv\<close> and the
  new block.
\<close>

definition exec_interpreter_argv ::
  "cstring \<Rightarrow> u32 \<Rightarrow> cstring list \<Rightarrow> cstring list \<Rightarrow> u32 \<Rightarrow> u32 \<Rightarrow> exec_state
     \<Rightarrow> abort + ((u32 \<times> cstring list \<times> u32) option \<times> exec_state)" where
  "exec_interpreter_argv saved_filename argc saved_argv saved_envp envp_bytes args_mem st =
     (let (int_argv_block, st1) = kmalloc st in
      if int_argv_block = 0 then Inr (None, st1)
      else
        (let int_argv = hd saved_argv # saved_filename # tl saved_argv;
             argc1 = argc + 1;
             int_argv_bytes = count_args_bytes int_argv;
             (int_args_mem, st2) = kmalloc st1
         in
         if int_args_mem = 0 then Inr (None, st2)
         else
           (case copy_args_to_block int_args_mem (int_argv_bytes + envp_bytes)
                   int_argv saved_envp (xmem st2) of
              Inl a \<Rightarrow> Inl a
            | Inr m \<Rightarrow>
                Inr (Some (argc1, int_argv, int_args_mem),
                     xemit (Kfree args_mem) (st2\<lparr>xmem := m\<rparr>)))))"

text \<open>
  The last part of \<open>sys_execve\<close>: the arguments, the environment and the three words for
  \<open>main\<close> go onto the user stack of the new image, and the bounds of the two blocks are
  noted in the \<open>mm\<close>.
\<close>

definition exec_push_main_args ::
  "u32 \<Rightarrow> cstring list \<Rightarrow> cstring list \<Rightarrow> exec_state \<Rightarrow> abort + exec_state" where
  "exec_push_main_args argc saved_argv saved_envp st =
     (case task_mm (xtask st) of
        None \<Rightarrow> Inl NullDereference
      | Some m0 \<Rightarrow>
          (let sp0 = useresp (task_regs (xtask st));
               m1 = m0\<lparr>arg_start := sp0\<rparr>
           in
           case push_args_on_stack (sp0, xmem st) saved_argv of
             Inl a \<Rightarrow> Inl a
           | Inr sta \<Rightarrow>
               (let final_argv = fst sta;
                    m2 = m1\<lparr>arg_end := final_argv, env_start := final_argv\<rparr>
                in
                case push_args_on_stack sta saved_envp of
                  Inl a \<Rightarrow> Inl a
                | Inr stb \<Rightarrow>
                    (let final_envp = fst stb;
                         m3 = m2\<lparr>env_end := final_envp\<rparr>;
                         stc = push_u32 (push_u32 (push_u32 stb final_envp) final_argv) argc;
                         t = xtask st;
                         t1 = t\<lparr>task_mm := Some m3,
                                task_regs := (task_regs t)\<lparr>useresp := fst stc\<rparr>\<rparr>
                     in Inr (st\<lparr>xtask := t1, xmem := snd stc\<rparr>)))))"

text \<open>
  \<open>sys_execve\<close>, in three parts. The three pointers taken from the frame (\<open>ebx\<close>, \<open>ecx\<close>,
  \<open>edx\<close>) are given by what they point to in the caller's memory: the file name, the
  argument array and the environment, \<open>None\<close> for a null pointer. The result is the return
  value, the frame and the state. \<open>strcpy\<close> into \<open>name_buffer[NAME_MAX]\<close> and
  \<open>saved_filename[PATH_MAX]\<close> overflows when the string with its NUL does not fit.

  First the part from \<open>__load_executable\<close> to the end.
\<close>

definition execve_load ::
  "exec_env \<Rightarrow> cstring \<Rightarrow> cstring \<Rightarrow> cstring list \<Rightarrow> cstring list \<Rightarrow> u32 \<Rightarrow> pt_regs
     \<Rightarrow> exec_state \<Rightarrow> abort + (int \<times> pt_regs \<times> exec_state)" where
  "execve_load E name_buffer saved_filename argv envp args_mem f st =
     (case load_executable E saved_filename st of
        Inl a \<Rightarrow> Inl a
      | Inr (ret, st2) \<Rightarrow>
          if ret \<le> 0 then Inr (ret, f, xemit (Kfree args_mem) st2)
          else
            (case (if ret = 2
                   then exec_interpreter_argv saved_filename (count_args argv) argv envp
                          (count_args_bytes envp) args_mem st2
                   else Inr (Some (count_args argv, argv, args_mem), st2)) of
               Inl a \<Rightarrow> Inl a
             | Inr (None, st3) \<Rightarrow> Inr (-1, f, st3)
             | Inr (Some (argc1, saved_argv, args_mem1), st3) \<Rightarrow>
                 (case exec_push_main_args argc1 saved_argv envp st3 of
                    Inl a \<Rightarrow> Inl a
                  | Inr st4 \<Rightarrow>
                      (let st5 = st4\<lparr>xtask := (xtask st4)\<lparr>task_name := name_buffer\<rparr>\<rparr>;
                           st6 = xemit (Kfree args_mem1) st5
                       in Inr (0, scheduler_restore_context (xtask st6) f, st6)))))"

text \<open>The part that copies the arguments to kernel memory.\<close>

definition execve_copy ::
  "exec_env \<Rightarrow> cstring \<Rightarrow> cstring list \<Rightarrow> cstring list \<Rightarrow> pt_regs \<Rightarrow> exec_state
     \<Rightarrow> abort + (int \<times> pt_regs \<times> exec_state)" where
  "execve_copy E fname argv envp f st =
     (if NAME_MAX E \<le> length (hd argv) \<or> PATH_MAX E \<le> length fname then Inl BufferOverflow
      else
        (let argv_bytes = count_args_bytes argv;
             envp_bytes = count_args_bytes envp
         in
         if sint argv_bytes < 0 \<or> sint envp_bytes < 0 then Inr (-1, f, st)
         else
           (let (args_mem, st1) = kmalloc st in
            if args_mem = 0 then Inr (-1, f, st1)
            else
              (case copy_args_to_block args_mem (argv_bytes + envp_bytes) argv envp
                      (xmem st1) of
                 Inl a \<Rightarrow> Inl a
               | Inr m1 \<Rightarrow>
                   execve_load E (hd argv) fname argv envp args_mem f (st1\<lparr>xmem := m1\<rparr>)))))"

text \<open>The checks of the three pointers.\<close>

definition sys_execve ::
  "exec_env \<Rightarrow> cstring option \<Rightarrow> cstring list option \<Rightarrow> cstring list option \<Rightarrow> pt_regs
     \<Rightarrow> exec_state \<Rightarrow> abort + (int \<times> pt_regs \<times> exec_state)" where
  "sys_execve E filename origin_argv origin_envp f st =
     (case filename of
        None \<Rightarrow> Inr (-1, f, st)
      | Some fname \<Rightarrow>
          (case origin_argv of
             None \<Rightarrow> Inr (-1, f, st)
           | Some argv \<Rightarrow>
               if argv = [] then Inr (-1, f, st)
               else
                 (case origin_envp of
                    None \<Rightarrow> Inr (-1, f, st)
                  | Some envp \<Rightarrow> execve_copy E fname argv envp f st)))"

text \<open>
  What \<open>main\<close> finds on its stack: strings and pointer arrays read back from memory. The
  first argument bounds the number of bytes, respectively of entries, that are looked at.
\<close>

fun read_cstring :: "nat \<Rightarrow> memory \<Rightarrow> u32 \<Rightarrow> cstring option" where
  "read_cstring 0 m p = None"
| "read_cstring (Suc n) m p =
     (if m p = 0 then Some []
      else map_option ((#) (m p)) (read_cstring n m (p + 1)))"

fun read_args :: "nat \<Rightarrow> memory \<Rightarrow> u32 \<Rightarrow> cstring list option" where
  "read_args 0 m p = None"
| "read_args (Suc n) m p =
     (if load_u32 m p = 0 then Some []
      else
        (case read_cstring 4096 m (load_u32 m p) of
           None \<Rightarrow> None
         | Some a \<Rightarrow> map_option ((#) a) (read_args n m (p + 4))))"

section \<open>paging.c: page-table entries\<close>

text \<open>
  Modelled from the spec: the bit-field declarations \<open>page_dir_entry_t\<close> and
  \<open>page_table_entry_t\<close> (mem/paging.h) are not among the sources. An entry is the x86 32-bit
  word: bit 0 present, bit 1 rw, bit 2 user, bit 5 accessed, bit 6 dirty, bit 8 global, bits
  9 to 11 available to the system, bits 12 to 31 the frame number. A leaf entry keeps its
  \<open>kernel_cow\<close> bit in the first available bit and a two-bit \<open>available\<close> field in the other
  two; a directory entry has a three-bit \<open>available\<close> field.
\<close>

type_synonym pg_entry = u32

definition pg_present :: "pg_entry \<Rightarrow> bool" where
  "pg_present e = bit e 0"

definition pg_rw :: "pg_entry \<Rightarrow> bool" where
  "pg_rw e = bit e 1"

definition pg_user :: "pg_entry \<Rightarrow> bool" where
  "pg_user e = bit e 2"

definition pg_accessed :: "pg_entry \<Rightarrow> bool" where
  "pg_accessed e = bit e 5"

definition pg_global :: "pg_entry \<Rightarrow> bool" where
  "pg_global e = bit e 8"

definition pg_kernel_cow :: "pg_entry \<Rightarrow> bool" where
  "pg_kernel_cow e = bit e 9"

definition pg_frame :: "pg_entry \<Rightarrow> u32" where
  "pg_frame e = drop_bit 12 e"

text \<open>Assignment to a one-bit field, and to the 20-bit frame field (which truncates).\<close>

definition set_flag :: "nat \<Rightarrow> bool \<Rightarrow> pg_entry \<Rightarrow> pg_entry" where
  "set_flag n b e = (if b then set_bit n e else unset_bit n e)"

definition set_frame :: "u32 \<Rightarrow> pg_entry \<Rightarrow> pg_entry" where
  "set_frame f e = take_bit 12 e OR push_bit 12 f"

text \<open>Assignment to the \<open>available\<close> field: bits 10 and 11 of a leaf entry, bits 9 to 11 of a
  directory entry.\<close>

definition set_pte_available :: "u32 \<Rightarrow> pg_entry \<Rightarrow> pg_entry" where
  "set_pte_available v e = set_flag 11 (bit v 1) (set_flag 10 (bit v 0) e)"

definition set_pde_available :: "u32 \<Rightarrow> pg_entry \<Rightarrow> pg_entry" where
  "set_pde_available v e = set_flag 11 (bit v 2) (set_flag 10 (bit v 1) (set_flag 9 (bit v 0) e))"

text \<open>
  The values of \<open>enum MEMMAP_FLAGS\<close> (mem/paging.h) are not among the sources either; the
  functions below take them as a parameter.
\<close>

record memmap_flags =
  MM_USER :: u32
  MM_GLOBAL :: u32
  MM_RW :: u32
  MM_PRESENT :: u32
  MM_COW :: u32
  MM_UPDADDR :: u32

definition PAGE_SIZE :: u32 where
  "PAGE_SIZE = 4096"


definition SIGSEGV :: int where
  "SIGSEGV = 11"

section \<open>paging.c: kernel state and collaborators\<close>

text \<open>
  What the paging code does to the outside world is recorded as a list of events, in the
  order of the calls: \<open>invlpg\<close>, \<open>sys_kill\<close>, \<open>scheduler_run\<close>, and the clearing of a
  freshly mapped page.
\<close>

datatype event =
    TlbFlush u32
  | SysKill u32 int
  | SchedulerRun
  | Memset u32 byte u32
  | VmemUnmap u32

text \<open>
  Page directories and page tables live in kernel memory. \<open>entries\<close> gives the 32-bit
  content of every directory or table entry by the address of the entry, so two pointers
  alias exactly when they are equal. The allocators are not among the sources: the results
  of the coming calls of \<open>kmem_cache_alloc(pgtbl_cache, _)\<close>, \<open>alloc_pages\<close> and
  \<open>vmem_map_physical_pages\<close> are listed in the state (0 is \<open>NULL\<close>; an exhausted list
  yields \<open>NULL\<close>). \<open>cr2\<close> is the faulting address, \<open>cr3\<close> the result of
  \<open>paging_get_current_directory\<close>, \<open>current_task\<close> the pid of the task returned by
  \<open>scheduler_get_current_process\<close>, if there is one.
\<close>

record kstate =
  entries :: "u32 \<Rightarrow> pg_entry"
  events :: "event list"
  pgtbl_pool :: "u32 list"
  page_pool :: "u32 list"
  vmem_pool :: "u32 list"
  cr2 :: u32
  cr3 :: u32
  current_task :: "u32 option"

text \<open>
  The address translations of the zone allocator (mem/alloc/zone_allocator.h) are not among
  the sources; they are parameters. A \<open>page_t *\<close> is its address, 0 for \<open>NULL\<close>.
\<close>

record zone_allocator =
  get_page_from_physical_address :: "u32 \<Rightarrow> u32"
  get_virtual_address_from_page :: "u32 \<Rightarrow> u32"
  get_page_from_virtual_address :: "u32 \<Rightarrow> u32"
  get_physical_address_from_page :: "u32 \<Rightarrow> u32"

text \<open>
  A call either returns a value and a state, or ends in \<open>kernel_panic\<close> (which never
  returns), or dereferences a null pointer.
\<close>

datatype 'a outcome = Return 'a kstate | Panic kstate | NullDeref kstate


definition emit :: "event \<Rightarrow> kstate \<Rightarrow> kstate" where
  "emit e s = s\<lparr>events := events s @ [e]\<rparr>"

definition write_entry :: "u32 \<Rightarrow> (pg_entry \<Rightarrow> pg_entry) \<Rightarrow> kstate \<Rightarrow> kstate" where
  "write_entry a f s = s\<lparr>entries := (entries s)(a := f (entries s a))\<rparr>"

definition paging_flush_tlb_single :: "u32 \<Rightarrow> kstate \<Rightarrow> kstate" where
  "paging_flush_tlb_single addr s = emit (TlbFlush addr) s"

definition kmem_cache_alloc_pgtbl :: "kstate \<Rightarrow> u32 \<times> kstate" where
  "kmem_cache_alloc_pgtbl s =
     (case pgtbl_pool s of [] \<Rightarrow> (0, s) | t # ts \<Rightarrow> (t, s\<lparr>pgtbl_pool := ts\<rparr>))"

definition alloc_pages :: "kstate \<Rightarrow> u32 \<times> kstate" where
  "alloc_pages s =
     (case page_pool s of [] \<Rightarrow> (0, s) | p # ps \<Rightarrow> (p, s\<lparr>page_pool := ps\<rparr>))"

definition vmem_map_physical_pages :: "kstate \<Rightarrow> u32 \<times> kstate" where
  "vmem_map_physical_pages s =
     (case vmem_pool s of [] \<Rightarrow> (0, s) | v # vs \<Rightarrow> (v, s\<lparr>vmem_pool := vs\<rparr>))"

section \<open>paging.c: the functions\<close>

text \<open>\<open>__set_pg_table_flags\<close>: the assignments in source order, on the entry's word.\<close>

definition pg_table_flags :: "memmap_flags \<Rightarrow> u32 \<Rightarrow> pg_entry \<Rightarrow> pg_entry" where
  "pg_table_flags K flags e =
     set_flag 2 (flags AND MM_USER K \<noteq> 0)
       (set_flag 8 (flags AND MM_GLOBAL K \<noteq> 0)
         (set_pte_available 1
           (set_flag 9 (flags AND MM_COW K \<noteq> 0)
             (set_flag 0 (flags AND MM_PRESENT K \<noteq> 0)
               (set_flag 1 (flags AND MM_RW K \<noteq> 0) e)))))"

definition set_pg_table_flags :: "memmap_flags \<Rightarrow> u32 \<Rightarrow> u32 \<Rightarrow> kstate \<Rightarrow> kstate" where
  "set_pg_table_flags K table flags s =
     (if table = 0 then s else write_entry table (pg_table_flags K flags) s)"

text \<open>\<open>__page_fault_panic\<close> prints the registers and calls \<open>kernel_panic\<close>.\<close>

definition page_fault_panic :: "kstate \<Rightarrow> 'a outcome" where
  "page_fault_panic s = Panic s"

text \<open>
  \<open>__page_handle_cow\<close>: returns 0 on success and 1 on error. The CoW bit is cleared before
  the present bit is looked at; only the branch for a page that is not present returns 0.
\<close>

definition page_handle_cow :: "zone_allocator \<Rightarrow> u32 \<Rightarrow> kstate \<Rightarrow> int \<times> kstate" where
  "page_handle_cow Z entry s =
     (if entry = 0 then (1, s)
      else if pg_kernel_cow (entries s entry) then
        (let s1 = write_entry entry (set_flag 9 False) s in
         if \<not> pg_present (entries s1 entry) then
           (let (page, s2) = alloc_pages s1 in
            if page = 0 then (1, s2)
            else
              (let (vaddr, s3) = vmem_map_physical_pages s2 in
               if vaddr = 0 then (1, s3)
               else
                 (let s4 = emit (Memset vaddr 0 PAGE_SIZE) s3;
                      s5 = emit (VmemUnmap vaddr) s4;
                      s6 = write_entry entry
                             (set_frame (drop_bit 12 (get_physical_address_from_page Z page))) s5;
                      s7 = write_entry entry (set_flag 0 True) s6
                  in (0, s7))))
         else (1, s1))
      else (1, s))"

text \<open>
  \<open>__mem_pg_entry_alloc\<close>: the page table behind a directory entry, allocated if the entry
  is not present. The result is the address of the table, 0 for \<open>NULL\<close>.
\<close>

definition mem_pg_entry_alloc ::
  "memmap_flags \<Rightarrow> zone_allocator \<Rightarrow> u32 \<Rightarrow> u32 \<Rightarrow> kstate \<Rightarrow> u32 outcome" where
  "mem_pg_entry_alloc K Z entry flags s =
     (if entry = 0 then Return 0 s
      else if \<not> pg_present (entries s entry) then
        (let s1 = write_entry entry (set_flag 0 True) s;
             s2 = write_entry entry (set_flag 1 True) s1;
             s3 = write_entry entry (set_flag 8 (flags AND MM_GLOBAL K \<noteq> 0)) s2;
             s4 = write_entry entry (set_flag 2 (flags AND MM_USER K \<noteq> 0)) s3;
             s5 = write_entry entry (set_flag 5 False) s4;
             s6 = write_entry entry (set_pde_available 1) s5;
             (new_table, s7) = kmem_cache_alloc_pgtbl s6
         in Return new_table s7)
      else
        (let s1 = write_entry entry
                    (\<lambda>e. set_flag 0 (pg_present e \<or> flags AND MM_PRESENT K \<noteq> 0) e) s;
             s2 = write_entry entry (\<lambda>e. set_flag 1 (pg_rw e \<or> flags AND MM_RW K \<noteq> 0) e) s1
         in if pg_global (entries s2 entry) \<and> flags AND MM_GLOBAL K = 0 then Panic s2
            else
              (let s3 = write_entry entry
                          (\<lambda>e. set_flag 8 (pg_global e \<and> flags AND MM_GLOBAL K \<noteq> 0) e) s2;
                   s4 = write_entry entry
                          (\<lambda>e. set_flag 2 (pg_user e \<or> flags AND MM_USER K \<noteq> 0) e) s3;
                   page = get_page_from_physical_address Z
                            (push_bit 12 (pg_frame (entries s4 entry)))
               in if page = 0 then Return 0 s4
                  else Return (get_virtual_address_from_page Z page) s4)))"


text \<open>
  The two places where \<open>page_fault_handler\<close> notifies the current process:
  \<open>sys_kill(task->pid, SIGSEGV); scheduler_run(f); return;\<close>
\<close>

definition segv_and_reschedule :: "u32 \<Rightarrow> kstate \<Rightarrow> unit outcome" where
  "segv_and_reschedule pid s = Return () (emit SchedulerRun (emit (SysKill pid SIGSEGV) s))"

text \<open>
  \<open>page_fault_handler\<close>. \<open>bit_check(v, b)\<close> tests bit \<open>b\<close> of \<open>v\<close>.
  \<open>is_valid_virtual_address\<close> (mem/mm/vmem.h) is not among the sources and is a parameter:
  it recognises the range of virtually mapped (aliased) addresses.
\<close>

definition page_fault_handler ::
  "memmap_flags \<Rightarrow> zone_allocator \<Rightarrow> (u32 \<Rightarrow> bool) \<Rightarrow> pt_regs \<Rightarrow> kstate \<Rightarrow> unit outcome" where
  "page_fault_handler K Z is_valid_virtual_address f s =
     (let err_user = bit (err_code f) 2;
          err_rw = bit (err_code f) 1;
          err_present = bit (err_code f) 0;
          faulting_addr = cr2 s;
          phy_dir = cr3 s
      in
      if phy_dir = 0 then page_fault_panic s
      else let dir_page = get_page_from_physical_address Z phy_dir in
      if dir_page = 0 then page_fault_panic s
      else let lowmem_dir = get_virtual_address_from_page Z dir_page in
      if lowmem_dir = 0 then page_fault_panic s
      else let direntry = lowmem_dir + 4 * (faulting_addr div (1024 * PAGE_SIZE)) in
      if \<not> pg_present (entries s direntry) then
        (if err_user then
           (case current_task s of
              Some pid \<Rightarrow> segv_and_reschedule pid s
            | None \<Rightarrow> page_fault_panic s)
         else page_fault_panic s)
      else let phy_table = push_bit 12 (pg_frame (entries s direntry));
               table_page = get_page_from_physical_address Z phy_table in
      if table_page = 0 then page_fault_panic s
      else let lowmem_table = get_virtual_address_from_page Z table_page in
      if lowmem_table = 0 then page_fault_panic s
      else let table_index = (faulting_addr div PAGE_SIZE) mod 1024;
               entry = lowmem_table + 4 * table_index in
      if entry = 0 then page_fault_panic s
      else if is_valid_virtual_address faulting_addr then
        (let orig_entry = entries s entry in
         if orig_entry = 0 then page_fault_panic s
         else
           (let (err, s1) = page_handle_cow Z orig_entry s in
            if err \<noteq> 0 then page_fault_panic s1
            else
              (let s2 = write_entry entry (set_frame (pg_frame (entries s1 orig_entry))) s1;
                   s3 = set_pg_table_flags K entry
                          (MM_PRESENT K OR MM_RW K OR MM_GLOBAL K OR MM_COW K OR MM_UPDADDR K) s2
               in Return () (paging_flush_tlb_single faulting_addr s3))))
      else
        (let (err, s1) = page_handle_cow Z entry s in
         if err \<noteq> 0 then
           (if err_user \<and> err_rw \<and> err_present then
              (case current_task s1 of
                 Some pid \<Rightarrow> segv_and_reschedule pid s1
               | None \<Rightarrow> page_fault_panic s1)
            else page_fault_panic s1)
         else Return () (paging_flush_tlb_single faulting_addr s1)))"










section \<open>paging.c: sys\_mmap and sys\_munmap\<close>

text \<open>
  Both work on the \<open>mm\<close> of the current task, which is passed in and returned. The
  functions on areas (mem/mm/vm\_area.h) and the file functions they call are not among the
  sources and are parameters: \<open>fget\<close> gives the descriptor of an \<open>fd\<close> (\<open>None\<close> for \<open>NULL\<close>)
  and in it the file (again \<open>None\<close> for \<open>NULL\<close>); \<open>vfs_fstat\<close> its return value and
  \<open>st_size\<close>; \<open>vm_area_search_free_area\<close> its return value and the address it stores;
  \<open>vm_area_create\<close> the index of the new area in the list of the \<open>mm\<close> it returns (\<open>None\<close>
  for \<open>NULL\<close>); \<open>vm_area_destroy\<close>, given the index of the area, its return value and the
  \<open>mm\<close> it leaves.
\<close>

record mmap_env =
  fget :: "int \<Rightarrow> vfs_file option option"
  vfs_fstat :: "vfs_file \<Rightarrow> int \<times> u32"
  vm_area_is_valid :: "mm_struct \<Rightarrow> u32 \<Rightarrow> u32 \<Rightarrow> bool"
  vm_area_search_free_area :: "mm_struct \<Rightarrow> u32 \<Rightarrow> int \<times> u32"
  vm_area_create :: "mm_struct \<Rightarrow> u32 \<Rightarrow> u32 \<Rightarrow> u32 \<Rightarrow> (nat \<times> mm_struct) option"
  vm_area_destroy :: "mm_struct \<Rightarrow> nat \<Rightarrow> int \<times> mm_struct"

text \<open>
  \<open>sys_mmap\<close>: the returned address (0 for \<open>NULL\<close>) and the \<open>mm\<close>. The flags of the call
  are stored in the area \<open>mmap_cache\<close> points to.
\<close>

definition sys_mmap ::
  "mmap_env \<Rightarrow> memmap_flags \<Rightarrow> u32 \<Rightarrow> u32 \<Rightarrow> u32 \<Rightarrow> u32 \<Rightarrow> int \<Rightarrow> u32 \<Rightarrow> mm_struct
     \<Rightarrow> abort + (u32 \<times> mm_struct)" where
  "sys_mmap V K addr len prot flags fd offset mm =
     (case fget V fd of
        None \<Rightarrow> Inr (0, mm)
      | Some None \<Rightarrow> Inr (0, mm)
      | Some (Some file) \<Rightarrow>
          (let (r, st_size) = vfs_fstat V file in
           if r < 0 then Inr (0, mm)
           else if st_size < offset + len then Inr (0, mm)
           else
             (case (if addr \<noteq> 0 \<and> vm_area_is_valid V mm addr (addr + len) then Some addr
                    else
                      (let (r, found) = vm_area_search_free_area V mm len in
                       if r \<noteq> 0 then None else Some found)) of
                None \<Rightarrow> Inr (0, mm)
              | Some start \<Rightarrow>
                  (case vm_area_create V mm start len
                          (MM_PRESENT K OR MM_RW K OR MM_COW K OR MM_USER K) of
                     None \<Rightarrow> Inr (0, mm)
                   | Some (segment, mm1) \<Rightarrow>
                       (case mmap_cache mm1 of
                          None \<Rightarrow> Inl NullDereference
                        | Some c \<Rightarrow>
                            (let mm2 = mm1\<lparr>mmap_list :=
                                         (mmap_list mm1)[c := (mmap_list mm1 ! c)\<lparr>vm_flags := flags\<rparr>]\<rparr>
                             in Inr (vm_start (mmap_list mm2 ! segment), mm2)))))))"

text \<open>
  \<open>sys_munmap\<close>: \<open>list_for_each_prev_decl\<close> walks the list of areas from the last to the
  first; the scan below looks at the area with index \<open>i\<close> when called with \<open>Suc i\<close>.
\<close>

fun munmap_scan :: "mmap_env \<Rightarrow> mm_struct \<Rightarrow> u32 \<Rightarrow> u32 \<Rightarrow> nat \<Rightarrow> int \<times> mm_struct" where
  "munmap_scan V mm addr len 0 = (1, mm)"
| "munmap_scan V mm addr len (Suc i) =
     (let segment = mmap_list mm ! i;
          sz = vm_end segment - vm_start segment
      in
      if addr = vm_start segment \<and> len = sz then
        (let (r, mm1) = vm_area_destroy V mm i in
         if r < 0 then (-1, mm1) else (0, mm1))
      else munmap_scan V mm addr len i)"

definition sys_munmap :: "mmap_env \<Rightarrow> u32 \<Rightarrow> u32 \<Rightarrow> mm_struct \<Rightarrow> int \<times> mm_struct" where
  "sys_munmap V addr len mm = munmap_scan V mm addr len (length (mmap_list mm))"

section \<open>The areas of an address space\<close>

text \<open>
  Modelled from the spec: \<open>vm_area_create\<close> and \<open>vm_area_destroy\<close> (mem/mm/vm\_area.h) are
  not among the sources. The spec says that \<open>sys_mmap\<close> and \<open>sys_munmap\<close> create and destroy
  areas, that an area has a start and an end address, and that the areas of an \<open>mm\<close> are
  sorted by start address. So creating an area of \<open>sz\<close> bytes at \<open>start\<close> puts the area from
  \<open>start\<close> to \<open>start + sz\<close> into the list before the first area that does not start below
  it, and fails only when the allocation of the descriptor fails (the first argument says
  whether it succeeds); \<open>mmap_cache\<close> is left pointing to the new area, which is the one
  \<open>sys_mmap\<close> then stores its flags in. Destroying an area takes it out of the list.
\<close>

definition spec_vm_area_create ::
  "bool \<Rightarrow> mm_struct \<Rightarrow> u32 \<Rightarrow> u32 \<Rightarrow> u32 \<Rightarrow> (nat \<times> mm_struct) option" where
  "spec_vm_area_create alloc_ok mm start sz pgflags =
     (if \<not> alloc_ok then None
      else
        (let segment = \<lparr>vm_start = start, vm_end = start + sz, vm_flags = pgflags\<rparr>;
             below = takeWhile (\<lambda>a. vm_start a < start) (mmap_list mm);
             rest = dropWhile (\<lambda>a. vm_start a < start) (mmap_list mm)
         in Some (length below,
                  mm\<lparr>mmap_list := below @ segment # rest, mmap_cache := Some (length below)\<rparr>)))"

definition spec_vm_area_destroy :: "mm_struct \<Rightarrow> nat \<Rightarrow> int \<times> mm_struct" where
  "spec_vm_area_destroy mm i =
     (0, mm\<lparr>mmap_list := take i (mmap_list mm) @ drop (Suc i) (mmap_list mm),
            mmap_cache := None\<rparr>)"

section \<open>Notions used in the statements\<close>

text \<open>
  The address of the page-directory entry that \<open>page_fault_handler\<close> looks at: the entry
  for the faulting address in the current directory, seen through low memory.
\<close>

definition fault_dir_entry :: "zone_allocator \<Rightarrow> kstate \<Rightarrow> u32" where
  "fault_dir_entry Z s =
     get_virtual_address_from_page Z (get_page_from_physical_address Z (cr3 s))
       + 4 * (cr2 s div (1024 * PAGE_SIZE))"


text \<open>
  The old process image is torn down during a call of \<open>sys_execve\<close> when the call reaches
  \<open>mm_destroy\<close> or \<open>__reset_process\<close> (which starts with \<open>mm_create_blank\<close>): one of the
  events the call has added says so.
\<close>

fun is_teardown :: "exec_event \<Rightarrow> bool" where
  "is_teardown (MmDestroy m) = True"
| "is_teardown MmCreateBlank = True"
| "is_teardown (VfsClose p) = False"
| "is_teardown (Kfree b) = False"
| "is_teardown (KfreePath p) = False"

definition torn_down :: "exec_state \<Rightarrow> exec_state \<Rightarrow> bool" where
  "torn_down st st' = list_ex is_teardown (drop (length (xevents st)) (xevents st'))"

text \<open>
  What a call of \<open>exec\<close> keeps of the state it started in: the task is the same task in the
  same scheduling state and events are only added (\<open>same_task\<close>); and as long as the image
  is not torn down the task is untouched (\<open>kept\<close>).
\<close>

definition same_task :: "exec_state \<Rightarrow> exec_state \<Rightarrow> bool" where
  "same_task st st' \<longleftrightarrow>
     task_state (xtask st') = task_state (xtask st)
   \<and> task_pid (xtask st') = task_pid (xtask st)
   \<and> length (xevents st) \<le> length (xevents st')
   \<and> take (length (xevents st)) (xevents st') = xevents st"

definition kept :: "exec_state \<Rightarrow> exec_state \<Rightarrow> bool" where
  "kept st st' \<longleftrightarrow> same_task st st' \<and> (torn_down st st' \<or> xtask st' = xtask st)"

text \<open>
  The events that a call has added to those of the state it started in. And the condition
  under which \<open>sys_execve\<close>, given a file name, a non-empty argument array and an
  environment, gets as far as \<open>__load_executable\<close>: both byte counts are non-negative as
  \<open>int\<close> and \<open>kmalloc\<close> returns the scratch block.
\<close>

definition new_events :: "exec_state \<Rightarrow> exec_state \<Rightarrow> exec_event list" where
  "new_events st st' = drop (length (xevents st)) (xevents st')"

definition reaches_load :: "cstring list \<Rightarrow> cstring list \<Rightarrow> exec_state \<Rightarrow> bool" where
  "reaches_load argv envp st \<longleftrightarrow>
     0 \<le> sint (count_args_bytes argv) \<and> 0 \<le> sint (count_args_bytes envp)
   \<and> fst (kmalloc st) \<noteq> 0"

text \<open>
  What \<open>main\<close> is called with after a successful \<open>sys_execve\<close>: \<open>argc\<close> is the word at the
  top of the user stack, \<open>argv\<close> the array behind the pointer above it.
\<close>

definition main_argc :: "exec_state \<Rightarrow> u32" where
  "main_argc st = load_u32 (xmem st) (useresp (task_regs (xtask st)))"

definition main_argv :: "exec_state \<Rightarrow> cstring list option" where
  "main_argv st =
     read_args 257 (xmem st) (load_u32 (xmem st) (useresp (task_regs (xtask st)) + 4))"

text \<open>
  A summary of a call of \<open>sys_execve\<close> started in \<open>st\<close>: the return value, the scheduling
  state of the task afterwards, and whether the old image was torn down.
\<close>

definition execve_summary ::
  "exec_state \<Rightarrow> abort + (int \<times> pt_regs \<times> exec_state) \<Rightarrow> (int \<times> task_state \<times> bool) option" where
  "execve_summary st r =
     (case r of
        Inl a \<Rightarrow> None
      | Inr (ret, f', st') \<Rightarrow> Some (ret, task_state (xtask st'), torn_down st st'))"

text \<open>What \<open>main\<close> is called with (\<open>argc\<close> and \<open>argv\<close>) after a call that returned 0.\<close>

definition execve_main_args ::
  "abort + (int \<times> pt_regs \<times> exec_state) \<Rightarrow> (u32 \<times> cstring list option) option" where
  "execve_main_args r =
     (case r of
        Inl a \<Rightarrow> None
      | Inr (ret, f', st') \<Rightarrow> if ret = 0 then Some (main_argc st', main_argv st') else None)"

text \<open>
  An area matches a request of \<open>sys_munmap\<close> when it starts at the address and has exactly
  the length. \<open>destroy_result\<close> is what \<open>sys_munmap\<close> returns after calling
  \<open>vm_area_destroy\<close> on the area with index \<open>i\<close>. The bounds of an area are its start and
  its end.
\<close>

definition area_matches :: "u32 \<Rightarrow> u32 \<Rightarrow> vm_area_struct \<Rightarrow> bool" where
  "area_matches addr len a \<longleftrightarrow> vm_start a = addr \<and> vm_end a - vm_start a = len"

definition destroy_result :: "mmap_env \<Rightarrow> mm_struct \<Rightarrow> nat \<Rightarrow> int \<times> mm_struct" where
  "destroy_result V mm i =
     (if fst (vm_area_destroy V mm i) < 0 then - 1 else 0, snd (vm_area_destroy V mm i))"

definition area_bounds :: "vm_area_struct \<Rightarrow> u32 \<times> u32" where
  "area_bounds a = (vm_start a, vm_end a)"





section \<open>Concrete instances\<close>

text \<open>
  Values for the parameters, used where a statement is instantiated: flag values that are
  distinct bits, a zone allocator that maps every address to itself, and a memory of zeros.
\<close>

definition example_flags :: memmap_flags where
  "example_flags = \<lparr>MM_USER = 1, MM_GLOBAL = 2, MM_RW = 4, MM_PRESENT = 8, MM_COW = 16,
                     MM_UPDADDR = 32\<rparr>"

definition identity_zone :: zone_allocator where
  "identity_zone = \<lparr>get_page_from_physical_address = (\<lambda>a. a),
                     get_virtual_address_from_page = (\<lambda>a. a),
                     get_page_from_virtual_address = (\<lambda>a. a),
                     get_physical_address_from_page = (\<lambda>a. a)\<rparr>"

definition zero_memory :: memory where
  "zero_memory = (\<lambda>a. 0)"

definition no_alias_range :: "u32 \<Rightarrow> bool" where
  "no_alias_range a = False"

text \<open>
  A state with one page directory at \<open>0x1000\<close> whose entry 32 (at \<open>0x1080\<close>) is present,
  writable, user and global and points to the page table at \<open>0x2000\<close>; the leaf entry 73 of
  that table (at \<open>0x2124\<close>) has frame 5 and is present, user and marked CoW. The faulting
  address \<open>0x08049000\<close> falls under these two entries. The current task has pid 7.
\<close>

definition example_state :: kstate where
  "example_state =
     \<lparr>entries = (\<lambda>a. if a = 0x1080 then 0x2107 else if a = 0x2124 then 0x5205 else 0),
      events = [], pgtbl_pool = [], page_pool = [], vmem_pool = [],
      cr2 = 0x08049000, cr3 = 0x1000, current_task = Some 7\<rparr>"

text \<open>The same state with a faulting address under directory entry 1, which is empty.\<close>

definition example_state_no_table :: kstate where
  "example_state_no_table = example_state\<lparr>cr2 := 0x00400000\<rparr>"

text \<open>A scheduler whose current task has pid 7 and no address space; the next free pid is 8.\<close>

definition example_task :: task_struct where
  "example_task = alloc_task 7 None None (Some [0x69, 0x6E, 0x69, 0x74])"


text \<open>
  A file system with three files: \<open>script\<close>, whose content is the line \<open>#!/bin/sh\<close>;
  \<open>/bin/sh\<close>, an ELF executable; and \<open>nested\<close>, whose content is the line \<open>#!script\<close>.
  Every file may be executed, the ELF loader succeeds, and a failed \<open>vfs_open\<close> leaves
  error number 2.
\<close>

definition path_script :: cstring where
  "path_script = [0x73, 0x63, 0x72, 0x69, 0x70, 0x74]"

definition path_bin_sh :: cstring where
  "path_bin_sh = [0x2F, 0x62, 0x69, 0x6E, 0x2F, 0x73, 0x68]"

definition path_nested :: cstring where
  "path_nested = [0x6E, 0x65, 0x73, 0x74, 0x65, 0x64]"

definition example_open :: "cstring \<Rightarrow> vfs_file option" where
  "example_open p =
     (if p = path_script then
        Some \<lparr>file_mask = 0, file_uid = 0, file_gid = 0,
              file_content = [0x23, 0x21] @ path_bin_sh @ [0x0A], file_is_elf_exec = False\<rparr>
      else if p = path_bin_sh then
        Some \<lparr>file_mask = 0, file_uid = 0, file_gid = 0,
              file_content = [0x7F, 0x45, 0x4C, 0x46], file_is_elf_exec = True\<rparr>
      else if p = path_nested then
        Some \<lparr>file_mask = 0, file_uid = 0, file_gid = 0,
              file_content = [0x23, 0x21] @ path_script @ [0x0A], file_is_elf_exec = False\<rparr>
      else None)"

definition example_errno :: "cstring \<Rightarrow> nat" where
  "example_errno p = 2"

definition example_exec_permission :: "task_struct \<Rightarrow> vfs_file \<Rightarrow> bool" where
  "example_exec_permission t exe = True"

definition example_elf_load :: "task_struct \<Rightarrow> vfs_file \<Rightarrow> int \<times> u32" where
  "example_elf_load t exe = (1, 0x08048000)"

definition example_env :: exec_env where
  "example_env =
     \<lparr>vfs_open = example_open, vfs_errno = example_errno,
      vfs_valid_exec_permission = example_exec_permission, elf_load_file = example_elf_load,
      PATH_MAX = 4096, NAME_MAX = 255, S_ISUID = 0x800, S_ISGID = 0x400, EFLAG_IF = 0x200,
      DEFAULT_STACK_SIZE = 0x100000\<rparr>"

text \<open>
  The task of the example scheduler with an address space, two blank address spaces with
  the stack below \<open>0xC0000000\<close> ready for \<open>mm_create_blank\<close>, and three blocks for
  \<open>kmalloc\<close>.
\<close>

definition example_mm :: mm_struct where
  "example_mm = \<lparr>mm_pgd = 0x1000, mmap_list = [], mmap_cache = None, start_stack = 0xBFF00000,
                  arg_start = 0, arg_end = 0, env_start = 0, env_end = 0\<rparr>"

definition example_exec_state :: exec_state where
  "example_exec_state =
     \<lparr>xtask = example_task\<lparr>task_mm := Some example_mm\<rparr>, xmem = zero_memory, xevents = [],
      blank_mms = [Some example_mm, Some example_mm],
      kmalloc_pool = [0xC0100000, 0xC0200000, 0xC0300000]\<rparr>"

text \<open>
  An address space with two areas, and collaborators for \<open>sys_mmap\<close>: descriptor 3 is a
  file of \<open>0x10000\<close> bytes, no hint is accepted, the search for a free area answers
  \<open>0x40000000\<close>, and areas are created and destroyed as modelled above.
\<close>

definition example_areas :: mm_struct where
  "example_areas =
     example_mm\<lparr>mmap_list := [\<lparr>vm_start = 0x08048000, vm_end = 0x08049000, vm_flags = 0\<rparr>,
                              \<lparr>vm_start = 0xBFF00000, vm_end = 0xC0000000, vm_flags = 0\<rparr>]\<rparr>"

definition example_fget :: "int \<Rightarrow> vfs_file option option" where
  "example_fget fd =
     (if fd = 3 then Some (Some \<lparr>file_mask = 0, file_uid = 0, file_gid = 0, file_content = [],
                                 file_is_elf_exec = False\<rparr>)
      else None)"

definition example_fstat :: "vfs_file \<Rightarrow> int \<times> u32" where
  "example_fstat exe = (0, 0x10000)"

definition example_is_valid :: "mm_struct \<Rightarrow> u32 \<Rightarrow> u32 \<Rightarrow> bool" where
  "example_is_valid mm a b = False"

definition example_search :: "mm_struct \<Rightarrow> u32 \<Rightarrow> int \<times> u32" where
  "example_search mm len = (0, 0x40000000)"

definition example_mmap_env :: mmap_env where
  "example_mmap_env =
     \<lparr>fget = example_fget, vfs_fstat = example_fstat, vm_area_is_valid = example_is_valid,
      vm_area_search_free_area = example_search,
      vm_area_create = spec_vm_area_create True, vm_area_destroy = spec_vm_area_destroy\<rparr>"

section \<open>Facts about words and entries\<close>

lemma sint_of_nat_small: "n < 2 ^ 31 \<Longrightarrow> sint (of_nat n :: u32) = int n"
proof -
  assume n: "n < 2 ^ 31"
  have "sint (of_nat n :: u32) = sint (word_of_int (int n) :: u32)"
    by simp
  also have "\<dots> = signed_take_bit 31 (int n)"
    by (simp only: sint_sbintrunc') simp
  also have "\<dots> = int n"
    using n by (intro signed_take_bit_int_eq_self) simp_all
  finally show ?thesis .
qed

lemma bit_set_flag: "bit (set_flag n b e) k = (if k = n then b \<and> n < 32 else bit e k)"
  by (auto simp add: set_flag_def bit_simps dest: bit_imp_le_length)

lemma pg_global_set_flag: "n \<noteq> 8 \<Longrightarrow> pg_global (set_flag n b e) = pg_global e"
  by (simp add: pg_global_def bit_set_flag)

lemma entries_write_entry: "entries (write_entry a g s) = (entries s)(a := g (entries s a))"
  by (simp add: write_entry_def)






lemma identity_zone_simps:
  "get_page_from_physical_address identity_zone a = a"
  "get_virtual_address_from_page identity_zone a = a"
  "get_page_from_virtual_address identity_zone a = a"
  "get_physical_address_from_page identity_zone a = a"
  by (simp_all add: identity_zone_def)

section \<open>The page-fault handler\<close>

lemma page_handle_cow_present:
  assumes "entry \<noteq> 0" and "pg_kernel_cow (entries s entry)" and "pg_present (entries s entry)"
  shows "page_handle_cow Z entry s = (1, write_entry entry (set_flag 9 False) s)"
  using assms
  by (simp add: page_handle_cow_def Let_def entries_write_entry pg_present_def bit_set_flag)

section \<open>Argument marshalling: the stack pointer\<close>

lemma fst_push_chars: "fst (push_chars bs st) = fst st - of_nat (length bs)"
  by (induction bs arbitrary: st) (simp_all add: push_char_def Let_def)

lemma fst_push_arg:
  "length a < 2 ^ 31 \<Longrightarrow> fst (push_arg a st) = fst st - (strlen a + 1)"
  by (simp add: push_arg_def strlen_def fst_push_chars sint_of_nat_small push_char_def Let_def)

lemma count_chars_acc: "count_chars args n = n + count_chars args 0"
proof (induction args arbitrary: n)
  case Nil
  show ?case by simp
next
  case (Cons a args)
  show ?case
    using Cons.IH [of "n + (strlen a + 1)"] Cons.IH [of "strlen a + 1"] by simp
qed

lemma count_chars_sum:
  "count_chars args 0 = of_nat (sum_list (map (\<lambda>a. length a + 1) args))"
proof (induction args)
  case Nil
  show ?case by simp
next
  case (Cons a args)
  show ?case
    using Cons.IH count_chars_acc [of args "strlen a + 1"] by (simp add: strlen_def)
qed

lemma fst_push_strings:
  "\<forall>a\<in>set args. length a < 2 ^ 31 \<Longrightarrow>
   fst (fst (push_strings args st)) = fst st - count_chars args 0"
proof (induction args)
  case Nil
  show ?case by simp
next
  case (Cons a args)
  then have IH: "fst (fst (push_strings args st)) = fst st - count_chars args 0"
    and a: "length a < 2 ^ 31"
    by simp_all
  show ?case
    using IH a count_chars_acc [of args "strlen a + 1"]
    by (simp add: split_def Let_def fst_push_arg)
qed

lemma length_push_strings: "length (snd (push_strings args st)) = length args"
  by (induction args) (simp_all add: split_def Let_def)

lemma fst_push_locations: "fst (push_locations ls st) = fst st - 4 * of_nat (length ls)"
  by (induction ls) (simp_all add: push_u32_def Let_def)

lemma push_args_on_stack_pointer:
  assumes "length args \<le> 256" and "\<forall>a\<in>set args. length a < 2 ^ 31"
  shows "\<exists>m'. push_args_on_stack (sp, m) args = Inr (sp - count_args_bytes args, m')"
proof -
  obtain st1 locs where ps: "push_strings args (sp, m) = (st1, locs)"
    by (cases "push_strings args (sp, m)")
  have 1: "fst st1 = sp - count_chars args 0"
    using fst_push_strings [OF assms(2), of "(sp, m)"] ps by simp
  have 2: "length locs = length args"
    using length_push_strings [of args "(sp, m)"] ps by simp
  have "fst (push_locations locs (push_u32 st1 0)) = sp - count_args_bytes args"
    by (simp add: fst_push_locations push_u32_def Let_def 1 2 count_args_bytes_def
          count_args_def algebra_simps)
  then show ?thesis
    using assms(1) ps
    by (cases "push_locations locs (push_u32 st1 0)") (auto simp add: push_args_on_stack_def)
qed

section \<open>The claims\<close>

lemma count_args_bytes_replicate:
  "count_args_bytes (replicate n []) = of_nat (n + 4 * (n + 1))"
  by (simp add: count_args_bytes_def count_args_def count_chars_sum map_replicate_const
        sum_list_replicate)

lemma push_args_on_stack_within_bounds:
  assumes "length argv \<le> 256" and "length envp \<le> 256"
    and "\<forall>a\<in>set argv \<union> set envp. length a < 2 ^ 31"
  shows "(\<exists>m'. push_args_on_stack (sp, m) argv = Inr (sp - count_args_bytes argv, m'))
       \<and> count_args_bytes argv
           = of_nat (sum_list (map (\<lambda>a. length a + 1) argv) + 4 * (length argv + 1))
       \<and> (\<exists>m'. copy_args_to_block args_mem (count_args_bytes argv + count_args_bytes envp)
                  argv envp m = Inr m')"
proof -
  from assms(3) have la: "\<forall>a\<in>set argv. length a < 2 ^ 31"
    and le: "\<forall>a\<in>set envp. length a < 2 ^ 31"
    by auto
  have first: "\<exists>m'. push_args_on_stack (sp, m) argv = Inr (sp - count_args_bytes argv, m')"
    by (rule push_args_on_stack_pointer [OF assms(1) la])
  have count: "count_args_bytes argv
      = of_nat (sum_list (map (\<lambda>a. length a + 1) argv) + 4 * (length argv + 1))"
    by (simp add: count_args_bytes_def count_args_def count_chars_sum)
  let ?A = "count_args_bytes argv" and ?B = "count_args_bytes envp"
  have e1: "args_mem + (?A + ?B) - ?A = args_mem + ?B"
    by simp
  obtain m1 where p1:
    "push_args_on_stack (args_mem + (?A + ?B), m) argv = Inr (args_mem + ?B, m1)"
    using push_args_on_stack_pointer [OF assms(1) la, of "args_mem + (?A + ?B)" m]
    unfolding e1 by blast
  obtain m2 where p2: "push_args_on_stack (args_mem + ?B, m1) envp = Inr (args_mem, m2)"
    using push_args_on_stack_pointer [OF assms(2) le, of "args_mem + ?B" m1] by auto
  have "copy_args_to_block args_mem (?A + ?B) argv envp m = Inr m2"
    by (simp add: copy_args_to_block_def p1 p2)
  with first count show ?thesis by blast
qed

text \<open>
  C10. The claim does not hold of the code. \<open>__push_args_on_stack\<close> keeps the location of
  every string in the local array \<open>char *args_location[256]\<close> and never compares \<open>argc\<close>
  with its size. For an array of 256 empty strings the call returns with the stack pointer
  lowered by \<open>__count_args_bytes(args) = 1284\<close>, as its documentation and the assertion in
  \<open>sys_execve\<close> expect (and so it does for every array of at most 256 strings, see
  \<open>push_args_on_stack_within_bounds\<close>). For an array of 257 empty strings, for which
  \<open>__count_args_bytes\<close> gives 1289, the first loop writes \<open>args_location[256]\<close>, past the end
  of the array: the call does not return the lowered pointer, and \<open>sys_execve\<close> called with
  these arguments does not get as far as its assertion.
\<close>

theorem push_args_on_stack_overflows_args_location:
  "map_sum id fst (push_args_on_stack (0x1000, zero_memory) (replicate 256 []))
     = Inr (0x1000 - count_args_bytes (replicate 256 []))
   \<and> count_args_bytes (replicate 256 []) = 1284
   \<and> count_args_bytes (replicate 257 []) = 1289
   \<and> push_args_on_stack (0x1000, zero_memory) (replicate 257 []) = Inl ArgsLocationOverflow
   \<and> copy_args_to_block 0x2000 (1289 + 4) (replicate 257 []) [] zero_memory
       = Inl ArgsLocationOverflow
   \<and> sys_execve example_env (Some path_bin_sh) (Some (replicate 257 [])) (Some []) zero_regs
       example_exec_state = Inl ArgsLocationOverflow"
proof -
  have a: "length (replicate 256 ([] :: byte list)) \<le> 256"
    and b: "\<forall>a\<in>set (replicate 256 ([] :: byte list)). length a < 2 ^ 31"
    by simp_all
  obtain m' where "push_args_on_stack (0x1000, zero_memory) (replicate 256 [])
      = Inr (0x1000 - count_args_bytes (replicate 256 []), m')"
    using push_args_on_stack_pointer [OF a b] by blast
  then have 1: "map_sum id fst (push_args_on_stack (0x1000, zero_memory) (replicate 256 []))
     = Inr (0x1000 - count_args_bytes (replicate 256 []))"
    by simp
  have 2: "count_args_bytes (replicate 256 []) = 1284"
    and 3: "count_args_bytes (replicate 257 []) = 1289"
    by (simp_all add: count_args_bytes_replicate)
  have 4: "push_args_on_stack st (replicate 257 []) = Inl ArgsLocationOverflow" for st
    by (simp add: push_args_on_stack_def)
  have 5: "copy_args_to_block 0x2000 (1289 + 4) (replicate 257 []) [] zero_memory
       = Inl ArgsLocationOverflow"
    by (simp add: copy_args_to_block_def 4)
  have ne: "replicate 257 ([] :: byte list) \<noteq> []"
    by simp
  have hd: "hd (replicate 257 ([] :: byte list)) = []"
    by simp
  have c0: "count_args_bytes ([] :: cstring list) = 4"
    by (simp add: count_args_bytes_def count_args_def)
  have 6: "sys_execve example_env (Some path_bin_sh) (Some (replicate 257 [])) (Some []) zero_regs
       example_exec_state = Inl ArgsLocationOverflow"
    by (simp add: sys_execve_def execve_copy_def ne hd 3 c0 Let_def example_env_def path_bin_sh_def
        kmalloc_def example_exec_state_def copy_args_to_block_def 4)
  from 1 2 3 4 5 6 show ?thesis by blast
qed

text \<open>
  C8. When \<open>__mem_pg_entry_alloc\<close> is given a page-directory entry that is present and has
  its global bit set, and flags without \<open>MM_GLOBAL\<close>, the call ends in \<open>kernel_panic\<close>.
\<close>

theorem mem_pg_entry_alloc_global_drop_panics:
  assumes "entry \<noteq> 0" and "pg_present (entries s entry)" and "pg_global (entries s entry)"
    and "flags AND MM_GLOBAL K = 0"
  shows "\<exists>s'. mem_pg_entry_alloc K Z entry flags s = Panic s'"
  using assms
  by (simp add: mem_pg_entry_alloc_def Let_def entries_write_entry pg_global_set_flag)

theorem mem_pg_entry_alloc_global_drop_panics_witness:
  "(0x1080 :: u32) \<noteq> 0 \<and> pg_present (entries example_state 0x1080)
   \<and> pg_global (entries example_state 0x1080) \<and> 5 AND MM_GLOBAL example_flags = 0
   \<and> (\<exists>s'. mem_pg_entry_alloc example_flags identity_zone 0x1080 5 example_state = Panic s')"
proof -
  have a: "(0x1080 :: u32) \<noteq> 0" by simp
  have b: "pg_present (entries example_state 0x1080)"
    by (simp add: example_state_def pg_present_def)
  have c: "pg_global (entries example_state 0x1080)"
    by (simp add: example_state_def pg_global_def)
  have d: "5 AND MM_GLOBAL example_flags = 0"
    by (simp add: example_flags_def)
  show ?thesis
    using mem_pg_entry_alloc_global_drop_panics [OF a b c d, of identity_zone] a b c d
    by simp
qed

text \<open>
  C2. The claim does not hold of the code. For a leaf entry that is marked CoW and present,
  \<open>__page_handle_cow\<close> clears the CoW bit, skips the allocation, and then falls through to
  the error return that its comments reserve for pages that are not CoW. In the example
  state the handler, entered with error code 7 (user, write, present), sends \<open>SIGSEGV\<close> to
  the current task and runs the scheduler without flushing the TLB; entered with error
  code 6 it panics. In both cases the CoW bit of the entry has been cleared (\<open>0x5205\<close>
  becomes \<open>0x5005\<close>).
\<close>

theorem page_fault_cow_present_is_an_error:
  "page_fault_handler example_flags identity_zone no_alias_range
     (zero_regs\<lparr>err_code := 7\<rparr>) example_state
   = Return () (example_state\<lparr>entries := (entries example_state)(0x2124 := 0x5005),
                               events := [SysKill 7 SIGSEGV, SchedulerRun]\<rparr>)
   \<and> page_fault_handler example_flags identity_zone no_alias_range
     (zero_regs\<lparr>err_code := 6\<rparr>) example_state
   = Panic (example_state\<lparr>entries := (entries example_state)(0x2124 := 0x5005)\<rparr>)"
proof -
  have dir: "entries example_state 0x1080 = 0x2107"
    and leaf: "entries example_state 0x2124 = 0x5205"
    by (simp_all add: example_state_def)
  have d: "cr2 example_state div (1024 * PAGE_SIZE) = 32"
    and t: "(cr2 example_state div PAGE_SIZE) mod 1024 = 73"
    and c3: "cr3 example_state = 0x1000"
    and cur: "current_task example_state = Some 7"
    and ev: "events example_state = []"
    by (simp_all add: example_state_def PAGE_SIZE_def)
  have p: "pg_present (0x2107 :: u32)" "pg_frame (0x2107 :: u32) = 2"
    "pg_kernel_cow (0x5205 :: u32)" "pg_present (0x5205 :: u32)"
    "set_flag 9 False (0x5205 :: u32) = 0x5005"
    by (simp_all add: pg_present_def pg_frame_def pg_kernel_cow_def set_flag_def)
  have cow: "page_handle_cow identity_zone 0x2124 example_state
      = (1, write_entry 0x2124 (set_flag 9 False) example_state)"
    by (rule page_handle_cow_present) (simp_all add: leaf p)
  have w: "write_entry 0x2124 (set_flag 9 False) example_state
      = example_state\<lparr>entries := (entries example_state)(0x2124 := 0x5005)\<rparr>"
    by (simp add: write_entry_def leaf p)
  show ?thesis
    by (simp add: page_fault_handler_def Let_def identity_zone_simps c3 d t dir p cow w
          no_alias_range_def zero_regs_def page_fault_panic_def segv_and_reschedule_def
          emit_def cur ev)
qed

text \<open>
  C4. When the current directory can be reached and its entry for the faulting address is
  not present: with the user bit of the error code set and a current task, the handler
  calls \<open>sys_kill(pid, SIGSEGV)\<close> for that task, then \<open>scheduler_run\<close>, and returns without
  doing anything else (no TLB flush, no further look at the tables); with the user bit
  clear it panics. (With the user bit set and no current task it panics as well.)
\<close>

theorem page_fault_directory_entry_not_present:
  assumes "cr3 s \<noteq> 0" and "get_page_from_physical_address Z (cr3 s) \<noteq> 0"
    and "get_virtual_address_from_page Z (get_page_from_physical_address Z (cr3 s)) \<noteq> 0"
    and "\<not> pg_present (entries s (fault_dir_entry Z s))"
  shows "(bit (err_code f) 2 \<and> current_task s = Some pid \<longrightarrow>
            page_fault_handler K Z V f s
              = Return () (s\<lparr>events := events s @ [SysKill pid SIGSEGV, SchedulerRun]\<rparr>))
       \<and> (bit (err_code f) 2 \<and> current_task s = None \<longrightarrow>
            page_fault_handler K Z V f s = Panic s)
       \<and> (\<not> bit (err_code f) 2 \<longrightarrow> page_fault_handler K Z V f s = Panic s)"
  using assms
  by (simp add: page_fault_handler_def Let_def fault_dir_entry_def page_fault_panic_def
        segv_and_reschedule_def emit_def)

theorem page_fault_directory_entry_not_present_witness:
  "cr3 example_state_no_table \<noteq> 0
   \<and> get_page_from_physical_address identity_zone (cr3 example_state_no_table) \<noteq> 0
   \<and> get_virtual_address_from_page identity_zone
        (get_page_from_physical_address identity_zone (cr3 example_state_no_table)) \<noteq> 0
   \<and> \<not> pg_present (entries example_state_no_table
                      (fault_dir_entry identity_zone example_state_no_table))
   \<and> bit (err_code (zero_regs\<lparr>err_code := 4\<rparr>)) 2
   \<and> current_task example_state_no_table = Some 7
   \<and> page_fault_handler example_flags identity_zone no_alias_range
        (zero_regs\<lparr>err_code := 4\<rparr>) example_state_no_table
      = Return () (example_state_no_table\<lparr>events := [SysKill 7 SIGSEGV, SchedulerRun]\<rparr>)
   \<and> \<not> bit (err_code zero_regs) 2
   \<and> page_fault_handler example_flags identity_zone no_alias_range zero_regs
        example_state_no_table
      = Panic example_state_no_table"
proof -
  have a: "cr3 example_state_no_table \<noteq> 0"
    by (simp add: example_state_no_table_def example_state_def)
  have b: "get_page_from_physical_address identity_zone (cr3 example_state_no_table) \<noteq> 0"
    by (simp add: example_state_no_table_def example_state_def identity_zone_simps)
  have c: "get_virtual_address_from_page identity_zone
        (get_page_from_physical_address identity_zone (cr3 example_state_no_table)) \<noteq> 0"
    by (simp add: example_state_no_table_def example_state_def identity_zone_simps)
  have e: "fault_dir_entry identity_zone example_state_no_table = 0x1004"
    by (simp add: fault_dir_entry_def example_state_no_table_def example_state_def
          identity_zone_simps PAGE_SIZE_def)
  have d: "\<not> pg_present (entries example_state_no_table
                      (fault_dir_entry identity_zone example_state_no_table))"
    by (simp add: e) (simp add: example_state_no_table_def example_state_def pg_present_def)
  have u: "bit (err_code (zero_regs\<lparr>err_code := 4\<rparr>)) 2" "\<not> bit (err_code zero_regs) 2"
    by (simp_all add: zero_regs_def)
  have cur: "current_task example_state_no_table = Some 7"
    and ev: "events example_state_no_table = []"
    by (simp_all add: example_state_no_table_def example_state_def)
  show ?thesis
    using page_fault_directory_entry_not_present
            [OF a b c d, of "zero_regs\<lparr>err_code := 4\<rparr>" 7 example_flags no_alias_range]
          page_fault_directory_entry_not_present
            [OF a b c d, of zero_regs 7 example_flags no_alias_range]
          a b c d u cur
    by (simp add: ev)
qed

section \<open>The loop of mem\_clone\_vm\_area\<close>



















section \<open>sys\_execve: what a call keeps\<close>

lemma same_task_refl: "same_task st st"
  by (simp add: same_task_def)

lemma same_task_eventsD: "same_task a b \<Longrightarrow> \<exists>evs. xevents b = xevents a @ evs"
  unfolding same_task_def by (metis append_take_drop_id)

lemma same_taskI:
  assumes "task_state (xtask st') = task_state (xtask st)"
    and "task_pid (xtask st') = task_pid (xtask st)"
    and "xevents st' = xevents st @ evs"
  shows "same_task st st'"
  using assms by (simp add: same_task_def)

lemma same_task_trans: "same_task a b \<Longrightarrow> same_task b c \<Longrightarrow> same_task a c"
proof -
  assume ab: "same_task a b" and bc: "same_task b c"
  obtain e1 where e1: "xevents b = xevents a @ e1"
    using same_task_eventsD [OF ab] by blast
  obtain e2 where e2: "xevents c = xevents b @ e2"
    using same_task_eventsD [OF bc] by blast
  show ?thesis
    by (rule same_taskI [where evs = "e1 @ e2"])
       (use ab bc in \<open>simp_all add: same_task_def e1 e2\<close>)
qed

lemma torn_down_trans:
  assumes "same_task a b" and "same_task b c"
  shows "torn_down a c \<longleftrightarrow> torn_down a b \<or> torn_down b c"
proof -
  obtain e1 where e1: "xevents b = xevents a @ e1"
    using same_task_eventsD [OF assms(1)] by blast
  obtain e2 where e2: "xevents c = xevents b @ e2"
    using same_task_eventsD [OF assms(2)] by blast
  show ?thesis
    by (simp add: torn_down_def e1 e2 list_ex_append)
qed

lemma same_task_xemit: "same_task st (xemit e st)"
  by (simp add: same_task_def xemit_def)

lemma torn_down_xemit: "torn_down st (xemit e st) = is_teardown e"
  by (simp add: torn_down_def xemit_def)

lemma not_torn_down_refl: "\<not> torn_down st st"
  by (simp add: torn_down_def)

lemma same_task_kmalloc: "kmalloc st = (b, st') \<Longrightarrow> same_task st st' \<and> \<not> torn_down st st' \<and> xtask st' = xtask st"
  by (auto simp add: kmalloc_def same_task_def torn_down_def split: list.splits)

lemma replace_image_facts:
  assumes "replace_image E exe st = (ok, st')"
  shows "task_state (xtask st') = task_state (xtask st)"
    and "task_pid (xtask st') = task_pid (xtask st)"
    and "\<exists>evs. xevents st' = xevents st @ evs @ [MmCreateBlank]"
  using assms
  by (auto simp add: replace_image_def reset_process_def mm_create_blank_def xemit_def Let_def
           split: list.splits option.splits prod.splits if_splits)

lemma same_task_replace_image:
  assumes "replace_image E exe st = (ok, st')"
  shows "same_task st st'" and "torn_down st st'"
proof -
  obtain evs where e: "xevents st' = xevents st @ evs @ [MmCreateBlank]"
    using replace_image_facts(3) [OF assms] by blast
  show "same_task st st'"
    by (rule same_taskI [where evs = "evs @ [MmCreateBlank]"])
       (simp_all add: replace_image_facts(1,2) [OF assms] e)
  show "torn_down st st'"
    by (simp add: torn_down_def e list_ex_append)
qed

lemma load_executable_from_cases:
  assumes "load_executable_from E il path st = Inr (ret, st')"
  shows "(ret \<le> 0 \<and> (st' = st \<or> st' = xemit (VfsClose path) st))
       \<or> (\<exists>exe ok st4. vfs_open E path = Some exe \<and> replace_image E exe st = (ok, st4)
            \<and> (st' = xemit (VfsClose path) st4
               \<or> st' = xemit (VfsClose path) (xemit (KfreePath path) st4)
               \<or> st' = xemit (VfsClose path) (xemit (VfsClose path) st4)
               \<or> (\<exists>p. il = 0
                     \<and> load_executable_from E (il + 1) p (xemit (VfsClose path) st4)
                         = Inr (ret, st'))
               \<or> (\<exists>entry. st' = xemit (VfsClose path) (st4\<lparr>xtask := (xtask st4)\<lparr>task_regs :=
                                  (task_regs (xtask st4))\<lparr>eip := entry\<rparr>\<rparr>\<rparr>))
               \<or> (\<exists>entry. st' = xemit (VfsClose path) (xemit (KfreePath path) (st4\<lparr>xtask := (xtask st4)\<lparr>task_regs :=
                                  (task_regs (xtask st4))\<lparr>eip := entry\<rparr>\<rparr>\<rparr>)))))"
  using assms
  apply (subst (asm) load_executable_from.simps)
  apply (simp add: Let_def EACCES_def ENOEXEC_def split: option.splits if_splits prod.splits)
  apply blast+
  done


lemma kept_via:
  "same_task a b \<Longrightarrow> torn_down a b \<Longrightarrow> same_task b c \<Longrightarrow> kept a c \<and> torn_down a c"
  by (simp add: kept_def same_task_trans [of a b c] torn_down_trans [of a b c])

lemma same_task_eip:
  "same_task st (st\<lparr>xtask := (xtask st)\<lparr>task_regs := r\<rparr>\<rparr>)"
  by (simp add: same_task_def)

lemma kept_load_executable_from_step:
  assumes "load_executable_from E il path st = Inr (ret, st')"
    and rec: "\<And>p st4. il = 0 \<Longrightarrow> load_executable_from E 1 p st4 = Inr (ret, st')
                \<Longrightarrow> same_task st4 st'"
  shows "kept st st' \<and> (ret \<le> 0 \<or> torn_down st st')"
  using load_executable_from_cases [OF assms(1)]
proof (elim disjE exE conjE)
  assume "st' = st" and "ret \<le> 0"
  then show ?thesis by (simp add: kept_def same_task_refl)
next
  assume "st' = xemit (VfsClose path) st" and "ret \<le> 0"
  then show ?thesis by (simp add: kept_def same_task_def xemit_def)
next
  fix exe ok st4
  assume r: "replace_image E exe st = (ok, st4)" and "st' = xemit (VfsClose path) st4"
  then show ?thesis
    using kept_via [OF same_task_replace_image [OF r]] by (simp add: same_task_xemit)
next
  fix exe ok st4
  assume r: "replace_image E exe st = (ok, st4)"
    and "st' = xemit (VfsClose path) (xemit (KfreePath path) st4)"
  then show ?thesis
    using kept_via [OF same_task_replace_image [OF r]]
    by (simp add: same_task_trans [OF same_task_xemit same_task_xemit])
next
  fix exe ok st4
  assume r: "replace_image E exe st = (ok, st4)"
    and "st' = xemit (VfsClose path) (xemit (VfsClose path) st4)"
  then show ?thesis
    using kept_via [OF same_task_replace_image [OF r]]
    by (simp add: same_task_trans [OF same_task_xemit same_task_xemit])
next
  fix exe ok st4 p
  assume r: "replace_image E exe st = (ok, st4)" and il: "il = 0"
    and "load_executable_from E (il + 1) p (xemit (VfsClose path) st4) = Inr (ret, st')"
  then have "same_task (xemit (VfsClose path) st4) st'"
    using rec [of p "xemit (VfsClose path) st4"] by simp
  then show ?thesis
    using kept_via [OF same_task_replace_image [OF r]]
    by (simp add: same_task_trans [OF same_task_xemit])
next
  fix exe ok st4 entry
  assume r: "replace_image E exe st = (ok, st4)"
    and "st' = xemit (VfsClose path) (st4\<lparr>xtask := (xtask st4)\<lparr>task_regs :=
                                  (task_regs (xtask st4))\<lparr>eip := entry\<rparr>\<rparr>\<rparr>)"
  then show ?thesis
    using kept_via [OF same_task_replace_image [OF r]]
    by (simp add: same_task_trans [OF same_task_eip same_task_xemit])
next
  fix exe ok st4 entry
  assume r: "replace_image E exe st = (ok, st4)"
    and "st' = xemit (VfsClose path) (xemit (KfreePath path) (st4\<lparr>xtask := (xtask st4)\<lparr>task_regs :=
                                  (task_regs (xtask st4))\<lparr>eip := entry\<rparr>\<rparr>\<rparr>))"
  then show ?thesis
    using kept_via [OF same_task_replace_image [OF r]]
    by (simp add: same_task_trans [OF same_task_eip same_task_trans [OF same_task_xemit same_task_xemit]])
qed

lemma kept_load_executable_from:
  assumes "load_executable_from E il path st = Inr (ret, st')"
  shows "kept st st' \<and> (ret \<le> 0 \<or> torn_down st st')"
proof (rule kept_load_executable_from_step [OF assms])
  fix p st4
  assume "load_executable_from E 1 p st4 = Inr (ret, st')"
  then have "kept st4 st' \<and> (ret \<le> 0 \<or> torn_down st4 st')"
    by (rule kept_load_executable_from_step) simp
  then show "same_task st4 st'"
    by (simp add: kept_def)
qed

lemma kept_then_xemit: "kept a b \<Longrightarrow> kept a (xemit e b)"
proof -
  assume k: "kept a b"
  have s: "same_task a (xemit e b)"
    using k same_task_trans [OF _ same_task_xemit, of a b e] by (simp add: kept_def)
  have "torn_down a (xemit e b) \<longleftrightarrow> torn_down a b \<or> is_teardown e"
    using k torn_down_trans [OF _ same_task_xemit, of a b e]
    by (simp add: kept_def torn_down_xemit)
  with k s show ?thesis
    by (auto simp add: kept_def xemit_def)
qed

lemma same_task_exec_interpreter_argv:
  assumes "exec_interpreter_argv fn argc argv envp eb am st = Inr (r, st')"
  shows "same_task st st'"
  using assms
  by (auto simp add: exec_interpreter_argv_def Let_def kmalloc_def same_task_def xemit_def
        split: prod.splits if_splits sum.splits list.splits)

lemma same_task_exec_push_main_args:
  assumes "exec_push_main_args argc argv envp st = Inr st'"
  shows "same_task st st'"
  using assms
  by (auto simp add: exec_push_main_args_def Let_def same_task_def
        split: option.splits sum.splits)

lemma same_task_name: "same_task st (st\<lparr>xtask := (xtask st)\<lparr>task_name := n\<rparr>\<rparr>)"
  by (simp add: same_task_def)

lemma kept_execve_load:
  assumes "execve_load E nb fn argv envp am f st = Inr (ret, f', st')"
  shows "kept st st' \<and> (torn_down st st' \<or> f' = f)"
proof -
  obtain r st2 where le: "load_executable E fn st = Inr (r, st2)"
    using assms by (auto simp add: execve_load_def split: sum.splits)
  have k2: "kept st st2" and t2: "r \<le> 0 \<or> torn_down st st2"
    using le kept_load_executable_from [of E 0 fn st r st2]
    by (simp_all add: load_executable_def)
  show ?thesis
  proof (cases "r \<le> 0")
    case True
    then have "st' = xemit (Kfree am) st2" "f' = f"
      using assms le by (simp_all add: execve_load_def)
    then show ?thesis
      using kept_then_xemit [OF k2, of "Kfree am"] by simp
  next
    case False
    with t2 have torn: "torn_down st st2"
      by simp
    obtain r3 st3 where i3: "(if r = 2
                   then exec_interpreter_argv fn (count_args argv) argv envp
                          (count_args_bytes envp) am st2
                   else Inr (Some (count_args argv, argv, am), st2)) = Inr (r3, st3)"
      using assms le False by (auto simp add: execve_load_def split: sum.splits)
    have s3: "same_task st2 st3"
      using i3 same_task_exec_interpreter_argv [of fn "count_args argv" argv envp
          "count_args_bytes envp" am st2 r3 st3]
      by (auto simp add: same_task_refl split: if_splits)
    have s4: "same_task st3 st'"
    proof (cases r3)
      case None
      then show ?thesis
        using assms le False i3 by (simp add: execve_load_def same_task_refl)
    next
      case (Some t)
      obtain argc1 sargv am1 where t: "t = (argc1, sargv, am1)"
        by (cases t)
      obtain st4 where p4: "exec_push_main_args argc1 sargv envp st3 = Inr st4"
        using assms le False i3 Some t
        by (auto simp add: execve_load_def split: sum.splits)
      have "st' = xemit (Kfree am1) (st4\<lparr>xtask := (xtask st4)\<lparr>task_name := nb\<rparr>\<rparr>)"
        using assms le False i3 Some t p4 by (simp add: execve_load_def Let_def)
      then show ?thesis
        using same_task_trans [OF same_task_exec_push_main_args [OF p4]
                same_task_trans [OF same_task_name same_task_xemit]]
        by simp
    qed
    have "same_task st2 st'"
      by (rule same_task_trans [OF s3 s4])
    then show ?thesis
      using kept_via [of st st2 st'] k2 torn by (simp add: kept_def)
  qed
qed

lemma kmalloc_facts:
  assumes "kmalloc st = (b, st')"
  shows "xevents st' = xevents st" and "xtask st' = xtask st"
  using assms by (auto simp add: kmalloc_def split: list.splits)

lemma kept_same_events:
  assumes "xevents b = xevents a" and "xtask b = xtask a" and "kept b c"
  shows "kept a c" and "torn_down a c = torn_down b c"
  using assms by (simp_all add: kept_def same_task_def torn_down_def)

lemma kept_execve_copy:
  assumes "execve_copy E fn argv envp f st = Inr (ret, f', st')"
  shows "kept st st' \<and> (torn_down st st' \<or> f' = f)"
proof (cases "sint (count_args_bytes argv) < 0 \<or> sint (count_args_bytes envp) < 0")
  case True
  with assms show ?thesis
    by (simp add: execve_copy_def Let_def kept_def same_task_refl split: if_splits)
next
  case False
  obtain am st1 where km: "kmalloc st = (am, st1)"
    by (cases "kmalloc st")
  note kf = kmalloc_facts [OF km]
  show ?thesis
  proof (cases "am = 0")
    case True
    with assms False km have "st' = st1" "f' = f"
      by (simp_all add: execve_copy_def Let_def split: if_splits)
    then show ?thesis
      by (simp add: kept_def same_task_def kf)
  next
    case am: False
    obtain m1 where cp: "copy_args_to_block am (count_args_bytes argv + count_args_bytes envp)
                           argv envp (xmem st1) = Inr m1"
      using assms False km am
      by (auto simp add: execve_copy_def Let_def split: if_splits sum.splits)
    have el: "execve_load E (hd argv) fn argv envp am f (st1\<lparr>xmem := m1\<rparr>) = Inr (ret, f', st')"
      using assms False km am cp
      by (simp add: execve_copy_def Let_def split: if_splits)
    have k: "kept (st1\<lparr>xmem := m1\<rparr>) st'"
      and t: "torn_down (st1\<lparr>xmem := m1\<rparr>) st' \<or> f' = f"
      using kept_execve_load [OF el] by simp_all
    have e: "xevents (st1\<lparr>xmem := m1\<rparr>) = xevents st" "xtask (st1\<lparr>xmem := m1\<rparr>) = xtask st"
      by (simp_all add: kf)
    show ?thesis
      using kept_same_events [OF e k] t by simp
  qed
qed

lemma load_from_not_found:
  "vfs_open E path = None \<Longrightarrow>
   load_executable_from E il path st = Inr (- int (vfs_errno E path), st)"
  by (subst load_executable_from.simps) simp

lemma load_from_no_permission:
  "vfs_open E path = Some exe \<Longrightarrow> \<not> vfs_valid_exec_permission E (xtask st) exe \<Longrightarrow>
   load_executable_from E il path st = Inr (- EACCES, xemit (VfsClose path) st)"
  by (subst load_executable_from.simps) simp

lemma load_from_not_executable:
  "vfs_open E path = Some exe \<Longrightarrow> vfs_valid_exec_permission E (xtask st) exe \<Longrightarrow>
   \<not> (file_is_elf_exec exe \<or> has_shebang exe) \<Longrightarrow>
   load_executable_from E il path st = Inr (- ENOEXEC, xemit (VfsClose path) st)"
  by (subst load_executable_from.simps) simp

lemma load_from_mm_last:
  assumes "load_executable_from E (Suc 0) path st = Inr (r, st2)"
  shows "task_mm (xtask st2) = task_mm (xtask st) \<or> task_mm (xtask st2) \<in> set (None # blank_mms st)"
  using assms
  apply (subst (asm) load_executable_from.simps)
  apply (auto simp add: Let_def xemit_def replace_image_def reset_process_def mm_create_blank_def
      split: if_splits option.splits prod.splits list.splits)
  done

lemma load_from_replaces:
  assumes "vfs_open E path = Some exe" and "vfs_valid_exec_permission E (xtask st) exe"
    and "file_is_elf_exec exe \<or> has_shebang exe"
    and "load_executable_from E il path st = Inr (r, st2)"
  shows "\<exists>ok st4. replace_image E exe st = (ok, st4) \<and> same_task st4 st2
           \<and> (task_mm (xtask st2) = task_mm (xtask st4)
              \<or> task_mm (xtask st2) \<in> set (None # blank_mms st4))"
proof -
  obtain ok st4 where ri: "replace_image E exe st = (ok, st4)"
    by (cases "replace_image E exe st")
  have rec: "same_task st5 st2" if "load_executable_from E (Suc 0) p st5 = Inr (r, st2)" for p st5
    using kept_load_executable_from [OF that] by (simp add: kept_def)
  have "same_task st4 st2"
    using assms(4)
    apply (subst (asm) load_executable_from.simps)
    apply (simp add: assms(1,2,3) ri Let_def split: if_splits option.splits prod.splits)
         apply (auto simp add: same_task_def xemit_def)[3]
      apply (rule same_task_trans [OF same_task_xemit [of _ "VfsClose path"]])
      apply (erule rec)
     apply (auto simp add: same_task_def xemit_def)
    done
  moreover have "task_mm (xtask st2) = task_mm (xtask st4)
              \<or> task_mm (xtask st2) \<in> set (None # blank_mms st4)"
    using assms(4)
    apply (subst (asm) load_executable_from.simps)
    apply (simp add: assms(1,2,3) ri Let_def split: if_splits option.splits prod.splits)
         apply (auto simp add: xemit_def)[3]
      apply (drule load_from_mm_last)
      apply (simp add: xemit_def)
     apply (auto simp add: xemit_def)
    done
  ultimately show ?thesis
    using ri by blast
qed

lemma replace_image_events:
  assumes "replace_image E exe st = (ok, st4)"
  shows "xevents st4 = xevents st
           @ (case task_mm (xtask st) of Some m \<Rightarrow> [MmDestroy m] | None \<Rightarrow> [])
           @ [MmCreateBlank]"
  using assms
  by (auto simp add: replace_image_def reset_process_def mm_create_blank_def xemit_def Let_def
           split: list.splits option.splits prod.splits if_splits)

lemma replace_image_mm:
  assumes "replace_image E exe st = (ok, st4)"
  shows "task_mm (xtask st4) = (case blank_mms st of [] \<Rightarrow> None | m # ms \<Rightarrow> m)"
    and "blank_mms st4 = tl (blank_mms st)"
    and "ok = (if task_mm (xtask st4) = None then 0 else 1)"
  using assms
  by (auto simp add: replace_image_def reset_process_def mm_create_blank_def xemit_def Let_def
           split: list.splits option.splits prod.splits if_splits)

lemma execve_load_failure:
  assumes "load_executable E fn st = Inr (r, st2)" and "r \<le> 0"
  shows "execve_load E nb fn argv envp am f st = Inr (r, f, xemit (Kfree am) st2)"
  using assms by (simp add: execve_load_def)

lemma execve_reaches_load:
  assumes "sys_execve E (Some fn) (Some argv) (Some envp) f st = Inr (ret, f', st')"
    and "argv \<noteq> []" and "reaches_load argv envp st"
  shows "\<exists>am stL. am \<noteq> 0 \<and> xtask stL = xtask st \<and> xevents stL = xevents st
           \<and> blank_mms stL = blank_mms st
           \<and> execve_load E (hd argv) fn argv envp am f stL = Inr (ret, f', st')"
proof -
  obtain am st1 where km: "kmalloc st = (am, st1)"
    by (cases "kmalloc st")
  have am: "am \<noteq> 0"
    using assms(3) km by (simp add: reaches_load_def)
  have nn: "\<not> (sint (count_args_bytes argv) < 0 \<or> sint (count_args_bytes envp) < 0)"
    using assms(3) by (auto simp add: reaches_load_def)
  have bl: "blank_mms st1 = blank_mms st"
    using km by (auto simp add: kmalloc_def split: list.splits)
  obtain m1 where cp: "copy_args_to_block am (count_args_bytes argv + count_args_bytes envp)
                           argv envp (xmem st1) = Inr m1"
    using assms(1,2) nn km am
    by (auto simp add: sys_execve_def execve_copy_def Let_def split: if_splits sum.splits)
  have el: "execve_load E (hd argv) fn argv envp am f (st1\<lparr>xmem := m1\<rparr>) = Inr (ret, f', st')"
    using assms(1,2) nn km am cp
    by (simp add: sys_execve_def execve_copy_def Let_def split: if_splits)
  show ?thesis
    using am el kmalloc_facts [OF km] bl
    by (intro exI [of _ am] exI [of _ "st1\<lparr>xmem := m1\<rparr>"]) simp
qed

lemma not_torn_down_events:
  assumes "xevents st' = xevents st @ evs" and "\<not> list_ex is_teardown evs"
  shows "\<not> torn_down st st'"
  using assms by (simp add: torn_down_def)

lemma sys_execve_not_found:
  assumes call: "sys_execve E (Some fn) (Some argv) (Some envp) f st = Inr (ret, f', st')"
    and "argv \<noteq> []" and "reaches_load argv envp st"
    and "vfs_open E fn = None"
  shows "ret = - int (vfs_errno E fn) \<and> \<not> torn_down st st'"
proof -
  obtain am stL where l: "xtask stL = xtask st" "xevents stL = xevents st"
    and el: "execve_load E (hd argv) fn argv envp am f stL = Inr (ret, f', st')"
    using execve_reaches_load [OF assms(1,2,3)] by blast
  have "load_executable E fn stL = Inr (- int (vfs_errno E fn), stL)"
    by (simp add: load_executable_def load_from_not_found assms(4))
  from execve_load_failure [OF this, of "hd argv" argv envp am f] el
  have "ret = - int (vfs_errno E fn)" and "st' = xemit (Kfree am) stL"
    by simp_all
  then show ?thesis
    using not_torn_down_events [of st' st "[Kfree am]"] by (simp add: xemit_def l)
qed

lemma sys_execve_no_permission:
  assumes call: "sys_execve E (Some fn) (Some argv) (Some envp) f st = Inr (ret, f', st')"
    and "argv \<noteq> []" and "reaches_load argv envp st"
    and "vfs_open E fn = Some exe" and "\<not> vfs_valid_exec_permission E (xtask st) exe"
  shows "ret = - EACCES \<and> \<not> torn_down st st'"
proof -
  obtain am stL where l: "xtask stL = xtask st" "xevents stL = xevents st"
    and el: "execve_load E (hd argv) fn argv envp am f stL = Inr (ret, f', st')"
    using execve_reaches_load [OF assms(1,2,3)] by blast
  have "load_executable E fn stL = Inr (- EACCES, xemit (VfsClose fn) stL)"
    using assms(4,5) by (simp add: load_executable_def load_from_no_permission l)
  from execve_load_failure [OF this, of "hd argv" argv envp am f] el
  have "ret = - EACCES" and "st' = xemit (Kfree am) (xemit (VfsClose fn) stL)"
    by (simp_all add: EACCES_def)
  then show ?thesis
    using not_torn_down_events [of st' st "[VfsClose fn, Kfree am]"] by (simp add: xemit_def l)
qed

lemma sys_execve_not_executable:
  assumes call: "sys_execve E (Some fn) (Some argv) (Some envp) f st = Inr (ret, f', st')"
    and "argv \<noteq> []" and "reaches_load argv envp st"
    and "vfs_open E fn = Some exe" and "vfs_valid_exec_permission E (xtask st) exe"
    and "\<not> (file_is_elf_exec exe \<or> has_shebang exe)"
  shows "ret = - ENOEXEC \<and> \<not> torn_down st st'"
proof -
  obtain am stL where l: "xtask stL = xtask st" "xevents stL = xevents st"
    and el: "execve_load E (hd argv) fn argv envp am f stL = Inr (ret, f', st')"
    using execve_reaches_load [OF assms(1,2,3)] by blast
  have "load_executable E fn stL = Inr (- ENOEXEC, xemit (VfsClose fn) stL)"
    using assms(4,5,6) by (simp add: load_executable_def load_from_not_executable l)
  from execve_load_failure [OF this, of "hd argv" argv envp am f] el
  have "ret = - ENOEXEC" and "st' = xemit (Kfree am) (xemit (VfsClose fn) stL)"
    by (simp_all add: ENOEXEC_def)
  then show ?thesis
    using not_torn_down_events [of st' st "[VfsClose fn, Kfree am]"] by (simp add: xemit_def l)
qed

lemma sys_execve_early:
  assumes call: "sys_execve E filename origin_argv origin_envp f st = Inr (ret, f', st')"
    and "filename = None \<or> origin_argv = None \<or> origin_argv = Some [] \<or> origin_envp = None"
  shows "ret = - 1 \<and> f' = f \<and> st' = st"
  using assms by (auto simp add: sys_execve_def split: option.splits if_splits)

lemma sys_execve_no_scratch:
  assumes call: "sys_execve E filename origin_argv origin_envp f st = Inr (ret, f', st')"
    and "fst (kmalloc st) = 0"
  shows "ret = - 1 \<and> f' = f \<and> xtask st' = xtask st \<and> \<not> torn_down st st'"
proof -
  obtain stk where km: "kmalloc st = (0, stk)"
    using assms(2) by (cases "kmalloc st") simp
  note kf = kmalloc_facts [OF km]
  have "ret = - 1 \<and> f' = f \<and> (st' = st \<or> st' = stk)"
    using call km
    by (auto simp add: sys_execve_def execve_copy_def Let_def split: option.splits if_splits)
  then show ?thesis
    using kf by (auto simp add: torn_down_def)
qed

lemma execve_load_tail:
  assumes le: "load_executable E fn st = Inr (r, st2)"
    and el: "execve_load E nb fn argv envp am f st = Inr (ret, f', st')"
  shows "same_task st2 st'" and "ret \<le> 0" and "ret = r \<or> ret = - 1 \<or> ret = 0"
    and "ret \<noteq> 0 \<Longrightarrow> f' = f \<and> xtask st' = xtask st2"
proof -
  have all: "same_task st2 st' \<and> ret \<le> 0 \<and> (ret = r \<or> ret = - 1 \<or> ret = 0)
      \<and> (ret \<noteq> 0 \<longrightarrow> f' = f \<and> xtask st' = xtask st2)"
  proof (cases "r \<le> 0")
    case True
    then show ?thesis
      using el le by (auto simp add: execve_load_def same_task_def xemit_def)
  next
    case False
    obtain r3 st3 where i3: "(if r = 2
                   then exec_interpreter_argv fn (count_args argv) argv envp
                          (count_args_bytes envp) am st2
                   else Inr (Some (count_args argv, argv, am), st2)) = Inr (r3, st3)"
      using el le False by (auto simp add: execve_load_def split: sum.splits)
    have s3: "same_task st2 st3"
      using i3 same_task_exec_interpreter_argv [of fn "count_args argv" argv envp
          "count_args_bytes envp" am st2 r3 st3]
      by (auto simp add: same_task_refl split: if_splits)
    show ?thesis
    proof (cases r3)
      case None
      have x3: "xtask st3 = xtask st2"
        using i3 None
        by (auto simp add: exec_interpreter_argv_def Let_def kmalloc_def
              split: if_splits prod.splits list.splits sum.splits)
      have "ret = - 1" "f' = f" "st' = st3"
        using el le False i3 None by (simp_all add: execve_load_def)
      then show ?thesis
        using s3 x3 by simp
    next
      case (Some t)
      obtain argc1 sargv am1 where t: "t = (argc1, sargv, am1)"
        by (cases t)
      obtain st4 where p4: "exec_push_main_args argc1 sargv envp st3 = Inr st4"
        using el le False i3 Some t
        by (auto simp add: execve_load_def split: sum.splits)
      have r0: "ret = 0"
        and st': "st' = xemit (Kfree am1) (st4\<lparr>xtask := (xtask st4)\<lparr>task_name := nb\<rparr>\<rparr>)"
        using el le False i3 Some t p4 by (simp_all add: execve_load_def Let_def)
      have "same_task st3 st'"
        using same_task_trans [OF same_task_exec_push_main_args [OF p4]
                same_task_trans [OF same_task_name same_task_xemit]] st'
        by simp
      then show ?thesis
        using same_task_trans [OF s3] r0 by simp
    qed
  qed
  from all show "same_task st2 st'" and "ret \<le> 0" and "ret = r \<or> ret = - 1 \<or> ret = 0"
    and "ret \<noteq> 0 \<Longrightarrow> f' = f \<and> xtask st' = xtask st2"
    by simp_all
qed

lemma new_events_append: "xevents st' = xevents st @ evs \<Longrightarrow> new_events st st' = evs"
  by (simp add: new_events_def)

lemma sys_execve_replaces:
  assumes call: "sys_execve E (Some fn) (Some argv) (Some envp) f st = Inr (ret, f', st')"
    and "argv \<noteq> []" and "reaches_load argv envp st"
    and "vfs_open E fn = Some exe" and "vfs_valid_exec_permission E (xtask st) exe"
    and "file_is_elf_exec exe \<or> has_shebang exe"
  shows "torn_down st st'"
    and "\<exists>evs. new_events st st'
           = (case task_mm (xtask st) of Some m \<Rightarrow> [MmDestroy m] | None \<Rightarrow> [])
             @ MmCreateBlank # evs"
proof -
  obtain am stL where l: "xtask stL = xtask st" "xevents stL = xevents st"
    and el: "execve_load E (hd argv) fn argv envp am f stL = Inr (ret, f', st')"
    using execve_reaches_load [OF assms(1,2,3)] by blast
  obtain r st2 where le: "load_executable E fn stL = Inr (r, st2)"
    using el by (auto simp add: execve_load_def split: sum.splits)
  obtain ok st4 where ri: "replace_image E exe stL = (ok, st4)" and s42: "same_task st4 st2"
    using load_from_replaces [of E fn exe stL 0 r st2] assms(4,5,6) le
    by (auto simp add: load_executable_def l)
  have s2': "same_task st2 st'"
    by (rule execve_load_tail(1) [OF le el])
  obtain evs where evs: "xevents st' = xevents st4 @ evs"
    using same_task_eventsD [OF same_task_trans [OF s42 s2']] by blast
  have e4: "xevents st4 = xevents st
           @ (case task_mm (xtask st) of Some m \<Rightarrow> [MmDestroy m] | None \<Rightarrow> [])
           @ [MmCreateBlank]"
    using replace_image_events [OF ri] by (simp add: l)
  have ne: "new_events st st'
      = (case task_mm (xtask st) of Some m \<Rightarrow> [MmDestroy m] | None \<Rightarrow> []) @ MmCreateBlank # evs"
    by (rule new_events_append) (simp add: evs e4)
  then show "\<exists>evs. new_events st st'
           = (case task_mm (xtask st) of Some m \<Rightarrow> [MmDestroy m] | None \<Rightarrow> [])
             @ MmCreateBlank # evs"
    by blast
  show "torn_down st st'"
    using ne by (simp add: torn_down_def new_events_def list_ex_append)
qed

lemma sys_execve_no_memory:
  assumes call: "sys_execve E (Some fn) (Some argv) (Some envp) f st = Inr (ret, f', st')"
    and "argv \<noteq> []" and "reaches_load argv envp st"
    and "vfs_open E fn = Some exe" and "vfs_valid_exec_permission E (xtask st) exe"
    and "file_is_elf_exec exe \<or> has_shebang exe"
    and "fst (mm_create_blank st) = None"
  shows "ret = - ENOMEM \<and> task_mm (xtask st') = None"
proof -
  obtain am stL where l: "xtask stL = xtask st" "xevents stL = xevents st"
      "blank_mms stL = blank_mms st"
    and el: "execve_load E (hd argv) fn argv envp am f stL = Inr (ret, f', st')"
    using execve_reaches_load [OF assms(1,2,3)] by blast
  obtain ok st4 where ri: "replace_image E exe stL = (ok, st4)"
    by (cases "replace_image E exe stL")
  have "(case blank_mms st of [] \<Rightarrow> None | m # ms \<Rightarrow> m) = None"
    using assms(7) by (simp add: mm_create_blank_def split: list.splits)
  then have mm4: "task_mm (xtask st4) = None" and ok: "ok = 0"
    using replace_image_mm(1,3) [OF ri] by (simp_all add: l)
  have "load_executable E fn stL = Inr (- ENOMEM, xemit (VfsClose fn) st4)"
    unfolding load_executable_def
    by (subst load_executable_from.simps) (simp add: assms(4,5,6) l ri ok)
  from execve_load_failure [OF this, of "hd argv" argv envp am f] el
  have "ret = - ENOMEM" and "st' = xemit (Kfree am) (xemit (VfsClose fn) st4)"
    by (simp_all add: ENOMEM_def)
  then show ?thesis
    by (simp add: xemit_def mm4)
qed

lemma replace_image_mm_in:
  assumes "replace_image E exe st = (ok, st4)"
  shows "task_mm (xtask st4) \<in> set (None # blank_mms st)"
    and "set (blank_mms st4) \<subseteq> set (blank_mms st)"
  using replace_image_mm(1,2) [OF assms]
  by (auto split: list.splits dest: list.set_sel(2))

lemma sys_execve_replaced:
  assumes call: "sys_execve E (Some fn) (Some argv) (Some envp) f st = Inr (ret, f', st')"
    and "argv \<noteq> []" and "reaches_load argv envp st"
    and "vfs_open E fn = Some exe" and "vfs_valid_exec_permission E (xtask st) exe"
    and "file_is_elf_exec exe \<or> has_shebang exe"
    and "ret \<noteq> 0"
  shows "task_mm (xtask st') \<in> set (None # blank_mms st)"
proof -
  obtain am stL where l: "xtask stL = xtask st" "xevents stL = xevents st"
      "blank_mms stL = blank_mms st"
    and el: "execve_load E (hd argv) fn argv envp am f stL = Inr (ret, f', st')"
    using execve_reaches_load [OF assms(1,2,3)] by blast
  obtain r st2 where le: "load_executable E fn stL = Inr (r, st2)"
    using el by (auto simp add: execve_load_def split: sum.splits)
  obtain ok st4 where ri: "replace_image E exe stL = (ok, st4)"
    and mm: "task_mm (xtask st2) = task_mm (xtask st4)
              \<or> task_mm (xtask st2) \<in> set (None # blank_mms st4)"
    using load_from_replaces [of E fn exe stL 0 r st2] assms(4,5,6) le
    by (auto simp add: load_executable_def l)
  have "task_mm (xtask st2) \<in> set (None # blank_mms stL)"
    using mm replace_image_mm_in [OF ri] by auto
  moreover have "xtask st' = xtask st2"
    using execve_load_tail(4) [OF le el assms(7)] by simp
  ultimately show ?thesis
    by (simp add: l)
qed

lemma sys_execve_nested_shebang:
  assumes call: "sys_execve E (Some fn) (Some argv) (Some envp) f st = Inr (ret, f', st')"
    and "argv \<noteq> []" and "reaches_load argv envp st"
    and "vfs_open E fn = Some exe" and "vfs_valid_exec_permission E (xtask st) exe"
    and "has_shebang exe" and "read_shebang_line E exe = Some p"
    and "vfs_open E p = Some exe2" and "\<forall>t. vfs_valid_exec_permission E t exe2"
    and "has_shebang exe2" and "blank_mms st = Some m1 # Some m2 # rest"
  shows "ret = - ELOOP \<and> task_mm (xtask st') = Some m2"
proof -
  obtain am stL where l: "xtask stL = xtask st" "xevents stL = xevents st"
      "blank_mms stL = blank_mms st"
    and el: "execve_load E (hd argv) fn argv envp am f stL = Inr (ret, f', st')"
    using execve_reaches_load [OF assms(1,2,3)] by blast
  obtain ok st4 where ri: "replace_image E exe stL = (ok, st4)"
    by (cases "replace_image E exe stL")
  have ok: "ok = 1" and b4: "blank_mms st4 = Some m2 # rest"
    using replace_image_mm [OF ri] by (simp_all add: l assms(11))
  let ?st5 = "xemit (VfsClose fn) st4"
  obtain ok2 st6 where ri2: "replace_image E exe2 ?st5 = (ok2, st6)"
    by (cases "replace_image E exe2 ?st5")
  have ok2: "ok2 = 1" and m6: "task_mm (xtask st6) = Some m2"
    using replace_image_mm [OF ri2] by (simp_all add: xemit_def b4)
  have second: "load_executable_from E (Suc 0) p ?st5
      = Inr (- ELOOP, xemit (VfsClose p) (xemit (KfreePath p) st6))"
    by (subst load_executable_from.simps) (simp add: assms(8,9,10) ri2 ok2)
  have "load_executable E fn stL = Inr (- ELOOP, xemit (VfsClose p) (xemit (KfreePath p) st6))"
    unfolding load_executable_def
    by (subst load_executable_from.simps) (simp add: assms(4,5,6,7) l ri ok second)
  from execve_load_failure [OF this, of "hd argv" argv envp am f] el
  have "ret = - ELOOP"
    and "st' = xemit (Kfree am) (xemit (VfsClose p) (xemit (KfreePath p) st6))"
    by (simp_all add: ELOOP_def)
  then show ?thesis
    by (simp add: xemit_def m6)
qed

lemma sys_execve_cases:
  assumes call: "sys_execve E filename origin_argv origin_envp f st = Inr (ret, f', st')"
  shows "(ret = - 1 \<and> f' = f \<and> xtask st' = xtask st \<and> \<not> torn_down st st')
       \<or> (\<exists>fn argv envp. filename = Some fn \<and> origin_argv = Some argv \<and> argv \<noteq> []
             \<and> origin_envp = Some envp \<and> reaches_load argv envp st)"
proof (cases "filename = None \<or> origin_argv = None \<or> origin_argv = Some []
                \<or> origin_envp = None")
  case True
  then show ?thesis
    using sys_execve_early [OF call] by (simp add: not_torn_down_refl)
next
  case False
  then obtain fn argv envp where v: "filename = Some fn" "origin_argv = Some argv" "argv \<noteq> []"
      "origin_envp = Some envp"
    by auto
  show ?thesis
  proof (cases "reaches_load argv envp st")
    case True
    with v show ?thesis by blast
  next
    case nr: False
    show ?thesis
    proof (cases "fst (kmalloc st) = 0")
      case True
      then show ?thesis
        using sys_execve_no_scratch [OF call] by simp
    next
      case False
      with nr have "sint (count_args_bytes argv) < 0 \<or> sint (count_args_bytes envp) < 0"
        by (auto simp add: reaches_load_def)
      then have "ret = - 1 \<and> f' = f \<and> st' = st"
        using call v by (auto simp add: sys_execve_def execve_copy_def Let_def split: if_splits)
      then show ?thesis
        by (simp add: not_torn_down_refl)
    qed
  qed
qed

lemma sys_execve_result:
  assumes call: "sys_execve E filename origin_argv origin_envp f st = Inr (ret, f', st')"
  shows "ret \<le> 0" and "ret \<noteq> 0 \<Longrightarrow> f' = f"
proof -
  have "ret \<le> 0 \<and> (ret \<noteq> 0 \<longrightarrow> f' = f)"
    using sys_execve_cases [OF call]
  proof (elim disjE exE conjE)
    assume "ret = - 1" "f' = f"
    then show ?thesis by simp
  next
    fix fn argv envp
    assume v: "filename = Some fn" "origin_argv = Some argv" "argv \<noteq> []"
      "origin_envp = Some envp" "reaches_load argv envp st"
    obtain am stL where el: "execve_load E (hd argv) fn argv envp am f stL = Inr (ret, f', st')"
      using execve_reaches_load [OF call [unfolded v(1,2,4)] v(3,5)] by blast
    obtain r st2 where le: "load_executable E fn stL = Inr (r, st2)"
      using el by (auto simp add: execve_load_def split: sum.splits)
    show ?thesis
      using execve_load_tail(2,4) [OF le el] by simp
  qed
  then show "ret \<le> 0" and "ret \<noteq> 0 \<Longrightarrow> f' = f"
    by simp_all
qed

lemma sys_execve_torn_down:
  assumes call: "sys_execve E filename origin_argv origin_envp f st = Inr (ret, f', st')"
    and td: "torn_down st st'"
  shows "\<exists>evs. new_events st st'
           = (case task_mm (xtask st) of Some m \<Rightarrow> [MmDestroy m] | None \<Rightarrow> [])
             @ MmCreateBlank # evs"
    and "ret \<noteq> 0 \<Longrightarrow> task_mm (xtask st') \<in> set (None # blank_mms st)"
proof -
  from sys_execve_cases [OF call] td
  obtain fn argv envp where v: "filename = Some fn" "origin_argv = Some argv" "argv \<noteq> []"
      "origin_envp = Some envp" "reaches_load argv envp st"
    by blast
  note c = call [unfolded v(1,2,4)]
  obtain exe where o: "vfs_open E fn = Some exe"
    using sys_execve_not_found [OF c v(3,5)] td by (cases "vfs_open E fn") auto
  have pm: "vfs_valid_exec_permission E (xtask st) exe"
    using sys_execve_no_permission [OF c v(3,5) o] td by blast
  have ty: "file_is_elf_exec exe \<or> has_shebang exe"
    using sys_execve_not_executable [OF c v(3,5) o pm] td by blast
  show "\<exists>evs. new_events st st'
           = (case task_mm (xtask st) of Some m \<Rightarrow> [MmDestroy m] | None \<Rightarrow> [])
             @ MmCreateBlank # evs"
    by (rule sys_execve_replaces(2) [OF c v(3,5) o pm ty])
  show "task_mm (xtask st') \<in> set (None # blank_mms st)" if "ret \<noteq> 0"
    by (rule sys_execve_replaced [OF c v(3,5) o pm ty that])
qed

section \<open>The claims about exec\<close>

text \<open>
  C5, as amended. A call of \<open>sys_execve\<close> that returns never terminates the task: the task
  is still the same task in the same scheduling state, the value returned to the caller is
  never positive, and a call that returns a value other than 0 leaves the trap frame alone.
  If the call returns before the old image is torn down (before \<open>mm_destroy\<close> and
  \<open>__reset_process\<close>), the task, its \<open>mm\<close> included, and the trap frame are exactly as they
  were. If the old image is torn down, the first events of the call are \<open>mm_destroy\<close> of
  the old \<open>mm\<close> (if the task had one) and \<open>mm_create_blank\<close>, and after a non-zero return
  value the task's \<open>mm\<close> is one that \<open>mm_create_blank\<close> returned, or \<open>NULL\<close>.

  The failures in order. A null file name, argument array, first argument or environment,
  and a failed \<open>kmalloc\<close> of the scratch block, give -1 without teardown. Once
  \<open>__load_executable\<close> is reached: a file that cannot be opened gives \<open>-errno\<close>, a file
  without execute permission \<open>-EACCES\<close>, a file that is neither ELF nor a script \<open>-ENOEXEC\<close>,
  all three without teardown. A file that passes these checks has the old image torn down;
  then a failing \<open>mm_create_blank\<close> gives \<open>-ENOMEM\<close> with the task left without an \<open>mm\<close>,
  and a script whose interpreter is again a script gives \<open>-ELOOP\<close> with the task left on
  the second blank \<open>mm\<close>.
\<close>

theorem sys_execve_never_terminates_the_task:
  assumes call: "sys_execve E filename origin_argv origin_envp f st = Inr (ret, f', st')"
  shows "task_state (xtask st') = task_state (xtask st)
       \<and> task_pid (xtask st') = task_pid (xtask st)
       \<and> ret \<le> 0
       \<and> (ret \<noteq> 0 \<longrightarrow> f' = f)
       \<and> (\<not> torn_down st st' \<longrightarrow> xtask st' = xtask st \<and> f' = f)
       \<and> (torn_down st st' \<longrightarrow>
            (\<exists>evs. new_events st st'
               = (case task_mm (xtask st) of Some m \<Rightarrow> [MmDestroy m] | None \<Rightarrow> [])
                 @ MmCreateBlank # evs)
          \<and> (ret \<noteq> 0 \<longrightarrow> task_mm (xtask st') \<in> set (None # blank_mms st)))
       \<and> (filename = None \<or> origin_argv = None \<or> origin_argv = Some [] \<or> origin_envp = None
            \<or> fst (kmalloc st) = 0 \<longrightarrow> ret = - 1 \<and> \<not> torn_down st st')
       \<and> (\<forall>fn argv envp.
            filename = Some fn \<and> origin_argv = Some argv \<and> argv \<noteq> []
            \<and> origin_envp = Some envp \<and> reaches_load argv envp st \<longrightarrow>
            (vfs_open E fn = None \<longrightarrow> ret = - int (vfs_errno E fn) \<and> \<not> torn_down st st')
          \<and> (\<forall>exe. vfs_open E fn = Some exe \<longrightarrow>
                (\<not> vfs_valid_exec_permission E (xtask st) exe \<longrightarrow>
                   ret = - EACCES \<and> \<not> torn_down st st')
              \<and> (vfs_valid_exec_permission E (xtask st) exe
                   \<and> \<not> (file_is_elf_exec exe \<or> has_shebang exe) \<longrightarrow>
                   ret = - ENOEXEC \<and> \<not> torn_down st st')
              \<and> (vfs_valid_exec_permission E (xtask st) exe
                   \<and> (file_is_elf_exec exe \<or> has_shebang exe) \<longrightarrow>
                   torn_down st st'
                 \<and> (fst (mm_create_blank st) = None \<longrightarrow>
                      ret = - ENOMEM \<and> task_mm (xtask st') = None)
                 \<and> (\<forall>p exe2 m1 m2 rest.
                      has_shebang exe \<and> read_shebang_line E exe = Some p
                      \<and> vfs_open E p = Some exe2 \<and> (\<forall>t. vfs_valid_exec_permission E t exe2)
                      \<and> has_shebang exe2 \<and> blank_mms st = Some m1 # Some m2 # rest \<longrightarrow>
                      ret = - ELOOP \<and> task_mm (xtask st') = Some m2))))"
proof -
  have "kept st st' \<and> (torn_down st st' \<or> f' = f)"
    using call kept_execve_copy [of E _ _ _ f st ret f' st']
    by (auto simp add: sys_execve_def kept_def same_task_refl split: option.splits if_splits)
  then have a: "task_state (xtask st') = task_state (xtask st)
       \<and> task_pid (xtask st') = task_pid (xtask st)"
    and b: "\<not> torn_down st st' \<longrightarrow> xtask st' = xtask st \<and> f' = f"
    by (auto simp add: kept_def same_task_def)
  note c = sys_execve_result [OF call]
  have d: "torn_down st st' \<longrightarrow>
            (\<exists>evs. new_events st st'
               = (case task_mm (xtask st) of Some m \<Rightarrow> [MmDestroy m] | None \<Rightarrow> [])
                 @ MmCreateBlank # evs)
          \<and> (ret \<noteq> 0 \<longrightarrow> task_mm (xtask st') \<in> set (None # blank_mms st))"
    using sys_execve_torn_down [OF call] by blast
  have e: "filename = None \<or> origin_argv = None \<or> origin_argv = Some [] \<or> origin_envp = None
            \<or> fst (kmalloc st) = 0 \<longrightarrow> ret = - 1 \<and> \<not> torn_down st st'"
    using sys_execve_early [OF call] sys_execve_no_scratch [OF call]
    by (auto simp add: not_torn_down_refl)
  have g: "(vfs_open E fn = None \<longrightarrow> ret = - int (vfs_errno E fn) \<and> \<not> torn_down st st')
          \<and> (\<forall>exe. vfs_open E fn = Some exe \<longrightarrow>
                (\<not> vfs_valid_exec_permission E (xtask st) exe \<longrightarrow>
                   ret = - EACCES \<and> \<not> torn_down st st')
              \<and> (vfs_valid_exec_permission E (xtask st) exe
                   \<and> \<not> (file_is_elf_exec exe \<or> has_shebang exe) \<longrightarrow>
                   ret = - ENOEXEC \<and> \<not> torn_down st st')
              \<and> (vfs_valid_exec_permission E (xtask st) exe
                   \<and> (file_is_elf_exec exe \<or> has_shebang exe) \<longrightarrow>
                   torn_down st st'
                 \<and> (fst (mm_create_blank st) = None \<longrightarrow>
                      ret = - ENOMEM \<and> task_mm (xtask st') = None)
                 \<and> (\<forall>p exe2 m1 m2 rest.
                      has_shebang exe \<and> read_shebang_line E exe = Some p
                      \<and> vfs_open E p = Some exe2 \<and> (\<forall>t. vfs_valid_exec_permission E t exe2)
                      \<and> has_shebang exe2 \<and> blank_mms st = Some m1 # Some m2 # rest \<longrightarrow>
                      ret = - ELOOP \<and> task_mm (xtask st') = Some m2)))"
    if v: "filename = Some fn" "origin_argv = Some argv" "argv \<noteq> []"
      "origin_envp = Some envp" "reaches_load argv envp st" for fn argv envp
  proof -
    note cl = call [unfolded v(1,2,4)]
    note nf = sys_execve_not_found [OF cl v(3,5)]
      and np = sys_execve_no_permission [OF cl v(3,5)]
      and ne = sys_execve_not_executable [OF cl v(3,5)]
      and rp = sys_execve_replaces(1) [OF cl v(3,5)]
      and nm = sys_execve_no_memory [OF cl v(3,5)]
      and ns = sys_execve_nested_shebang [OF cl v(3,5)]
    show ?thesis
      by (intro conjI allI impI) (use nf np ne rp nm ns in \<open>blast+\<close>)
  qed
  show ?thesis
    apply (rule conjI, rule a [THEN conjunct1])
    apply (rule conjI, rule a [THEN conjunct2])
    apply (rule conjI, rule c(1))
    apply (rule conjI, rule impI, erule c(2))
    apply (rule conjI, rule b)
    apply (rule conjI, rule d)
    apply (rule conjI, rule e)
    apply (intro allI impI, elim conjE, rule g, assumption+)
    done
qed


theorem sys_execve_never_terminates_the_task_witness:
  "(\<exists>st'. sys_execve example_env (Some [0x78]) (Some [[0x78]]) (Some []) zero_regs
            example_exec_state = Inr (- 2, zero_regs, st')
         \<and> \<not> torn_down example_exec_state st'
         \<and> xtask st' = xtask example_exec_state)
   \<and> (\<exists>st'. sys_execve example_env (Some path_nested) (Some [path_nested]) (Some []) zero_regs
            example_exec_state = Inr (- ELOOP, zero_regs, st')
         \<and> torn_down example_exec_state st'
         \<and> task_state (xtask st') = TASK_RUNNING
         \<and> task_pid (xtask st') = task_pid (xtask example_exec_state)
         \<and> task_mm (xtask st') = Some example_mm
         \<and> (\<exists>evs. new_events example_exec_state st'
                    = MmDestroy example_mm # MmCreateBlank # evs))"
proof -
  let ?r1 = "sys_execve example_env (Some [0x78]) (Some [[0x78]]) (Some []) zero_regs
              example_exec_state"
  let ?r2 = "sys_execve example_env (Some path_nested) (Some [path_nested]) (Some []) zero_regs
              example_exec_state"
  have sm1: "execve_summary example_exec_state ?r1 = Some (- 2, TASK_RUNNING, False)"
    by code_simp
  then obtain f1 st1 where r1: "?r1 = Inr (- 2, f1, st1)"
    and nt: "\<not> torn_down example_exec_state st1"
    by (auto simp add: execve_summary_def split: sum.splits)
  from sys_execve_never_terminates_the_task [OF r1] nt
  have "xtask st1 = xtask example_exec_state" and "f1 = zero_regs"
    by simp_all
  with r1 nt have first: "\<exists>st'. ?r1 = Inr (- 2, zero_regs, st')
         \<and> \<not> torn_down example_exec_state st' \<and> xtask st' = xtask example_exec_state"
    by blast
  have sm2: "execve_summary example_exec_state ?r2 = Some (- ELOOP, TASK_RUNNING, True)"
    by code_simp
  then obtain f2 st2 where r2: "?r2 = Inr (- ELOOP, f2, st2)"
    and td: "torn_down example_exec_state st2"
    by (auto simp add: execve_summary_def split: sum.splits)
  note t2 = sys_execve_never_terminates_the_task [OF r2]
  have mm0: "task_mm (xtask example_exec_state) = Some example_mm"
    and ts0: "task_state (xtask example_exec_state) = TASK_RUNNING"
    and bl: "blank_mms example_exec_state = [Some example_mm, Some example_mm]"
    by (simp_all add: example_exec_state_def example_task_def alloc_task_def)
  have rl: "reaches_load [path_nested] [] example_exec_state"
    by (simp add: reaches_load_def count_args_bytes_def count_args_def strlen_def
          path_nested_def kmalloc_def example_exec_state_def)
  have o1: "vfs_open example_env path_nested
      = Some \<lparr>file_mask = 0, file_uid = 0, file_gid = 0,
              file_content = [0x23, 0x21] @ path_script @ [0x0A], file_is_elf_exec = False\<rparr>"
    and o2: "vfs_open example_env path_script
      = Some \<lparr>file_mask = 0, file_uid = 0, file_gid = 0,
              file_content = [0x23, 0x21] @ path_bin_sh @ [0x0A], file_is_elf_exec = False\<rparr>"
    by (simp_all add: example_env_def example_open_def path_nested_def path_script_def
          path_bin_sh_def)
  have pm: "vfs_valid_exec_permission example_env t exe" for t exe
    by (simp add: example_env_def example_exec_permission_def)
  have sb: "has_shebang \<lparr>file_mask = 0, file_uid = 0, file_gid = 0,
              file_content = [0x23, 0x21] @ p @ [0x0A], file_is_elf_exec = False\<rparr>" for p
    by (simp add: has_shebang_def)
  have ln: "read_shebang_line example_env \<lparr>file_mask = 0, file_uid = 0, file_gid = 0,
              file_content = [0x23, 0x21] @ path_script @ [0x0A], file_is_elf_exec = False\<rparr>
      = Some path_script"
    by (simp add: read_shebang_line_def vfs_read_def example_env_def path_script_def)
  have e0: "- ELOOP \<noteq> (0 :: int)"
    by (simp add: ELOOP_def)
  have f2: "f2 = zero_regs"
    using t2 e0 by blast
  have st: "task_state (xtask st2) = TASK_RUNNING"
    and pid: "task_pid (xtask st2) = task_pid (xtask example_exec_state)"
    using t2 ts0 by simp_all
  have ev: "\<exists>evs. new_events example_exec_state st2 = MmDestroy example_mm # MmCreateBlank # evs"
    using t2 td by (simp add: mm0)
  have mm: "task_mm (xtask st2) = Some example_mm"
    using t2 [THEN conjunct2, THEN conjunct2, THEN conjunct2, THEN conjunct2, THEN conjunct2,
        THEN conjunct2, THEN conjunct2, rule_format, of path_nested "[path_nested]" "[]",
        THEN conjunct2, rule_format, OF _ o1, THEN conjunct2, THEN conjunct2, rule_format,
        THEN conjunct2, THEN conjunct2, rule_format, of path_script _ example_mm example_mm "[]"]
      rl o2 pm sb ln bl
    by simp
  from r2 f2 td st pid mm ev have second: "\<exists>st'. ?r2 = Inr (- ELOOP, zero_regs, st')
         \<and> torn_down example_exec_state st'
         \<and> task_state (xtask st') = TASK_RUNNING
         \<and> task_pid (xtask st') = task_pid (xtask example_exec_state)
         \<and> task_mm (xtask st') = Some example_mm
         \<and> (\<exists>evs. new_events example_exec_state st'
                    = MmDestroy example_mm # MmCreateBlank # evs)"
    by blast
  from first second show ?thesis
    by blast
qed


text \<open>
  C5 as stated fails: for a script whose interpreter is itself a script the call returns
  \<open>-ELOOP\<close> after the old image has been torn down, and the task is left in the state
  \<open>TASK_RUNNING\<close>; nothing terminates it.
\<close>

theorem sys_execve_eloop_counterexample:
  "execve_summary example_exec_state
     (sys_execve example_env (Some path_nested) (Some [path_nested]) (Some []) zero_regs
        example_exec_state)
   = Some (- ELOOP, TASK_RUNNING, True)"
  by code_simp

text \<open>
  C6. The claim does not hold of the code. For the script \<open>script\<close> whose first line is
  \<open>#!/bin/sh\<close>, executed with the arguments \<open>script\<close> and \<open>a\<close>, the call returns 0 with
  \<open>/bin/sh\<close> loaded and \<open>main\<close> finds \<open>argc = 3\<close>, but its \<open>argv\<close> is \<open>script\<close>, \<open>script\<close>,
  \<open>a\<close>: \<open>int_argv[0]\<close> is the caller's \<open>argv[0]\<close> (the comment there reads
  ``TODO: pass the path to the interpreter''), not the interpreter path.
\<close>

theorem sys_execve_shebang_argv:
  "execve_main_args
     (sys_execve example_env (Some path_script) (Some [path_script, [0x61]]) (Some [])
        zero_regs example_exec_state)
   = Some (3, Some [path_script, path_script, [0x61]])"
  by code_simp

section \<open>sys\_munmap and sys\_mmap\<close>

lemma munmap_scan_result:
  "n \<le> length (mmap_list mm) \<Longrightarrow>
   (\<exists>i<n. area_matches addr len (mmap_list mm ! i)
          \<and> (\<forall>j. i < j \<and> j < n \<longrightarrow> \<not> area_matches addr len (mmap_list mm ! j))
          \<and> munmap_scan V mm addr len n = destroy_result V mm i)
   \<or> ((\<forall>i<n. \<not> area_matches addr len (mmap_list mm ! i))
      \<and> munmap_scan V mm addr len n = (1, mm))"
proof (induction n)
  case 0
  show ?case by simp
next
  case (Suc n)
  show ?case
  proof (cases "area_matches addr len (mmap_list mm ! n)")
    case True
    then have "munmap_scan V mm addr len (Suc n) = destroy_result V mm n"
      by (auto simp add: area_matches_def destroy_result_def Let_def split: prod.splits)
    with True show ?thesis
      by (intro disjI1 exI [of _ n]) auto
  next
    case False
    then have eq: "munmap_scan V mm addr len (Suc n) = munmap_scan V mm addr len n"
      by (auto simp add: area_matches_def Let_def)
    from Suc have "(\<exists>i<n. area_matches addr len (mmap_list mm ! i)
          \<and> (\<forall>j. i < j \<and> j < n \<longrightarrow> \<not> area_matches addr len (mmap_list mm ! j))
          \<and> munmap_scan V mm addr len n = destroy_result V mm i)
       \<or> ((\<forall>i<n. \<not> area_matches addr len (mmap_list mm ! i))
          \<and> munmap_scan V mm addr len n = (1, mm))"
      by simp
    then show ?thesis
    proof
      assume "\<exists>i<n. area_matches addr len (mmap_list mm ! i)
          \<and> (\<forall>j. i < j \<and> j < n \<longrightarrow> \<not> area_matches addr len (mmap_list mm ! j))
          \<and> munmap_scan V mm addr len n = destroy_result V mm i"
      then obtain i where i: "i < n" "area_matches addr len (mmap_list mm ! i)"
        "\<forall>j. i < j \<and> j < n \<longrightarrow> \<not> area_matches addr len (mmap_list mm ! j)"
        "munmap_scan V mm addr len n = destroy_result V mm i"
        by blast
      have "\<forall>j. i < j \<and> j < Suc n \<longrightarrow> \<not> area_matches addr len (mmap_list mm ! j)"
        using i(3) False by (auto simp add: less_Suc_eq)
      with i eq show ?thesis
        by (intro disjI1 exI [of _ i]) auto
    next
      assume "(\<forall>i<n. \<not> area_matches addr len (mmap_list mm ! i))
          \<and> munmap_scan V mm addr len n = (1, mm)"
      with False eq show ?thesis
        by (intro disjI2) (auto simp add: less_Suc_eq)
    qed
  qed
qed

text \<open>
  C7. For every call of \<open>sys_munmap(addr, len)\<close>: either some area of the list starts at
  \<open>addr\<close> and has exactly the length \<open>len\<close>, and the call returns what comes of
  \<open>vm_area_destroy\<close> on such an area (0, or -1 if that fails); or no area matches exactly,
  and the call returns 1 and leaves the \<open>mm\<close>, its list of areas included, as it was. An
  area is thus destroyed only on an exact match.
\<close>

theorem sys_munmap_exact_match_only:
  "(\<exists>i<length (mmap_list mm).
        vm_start (mmap_list mm ! i) = addr
      \<and> vm_end (mmap_list mm ! i) - vm_start (mmap_list mm ! i) = len
      \<and> sys_munmap V addr len mm = destroy_result V mm i)
   \<or> ((\<forall>a\<in>set (mmap_list mm). \<not> (vm_start a = addr \<and> vm_end a - vm_start a = len))
      \<and> sys_munmap V addr len mm = (1, mm))"
proof -
  from munmap_scan_result [of "length (mmap_list mm)" mm addr len V]
  show ?thesis
    unfolding sys_munmap_def area_matches_def
    by (auto simp add: in_set_conv_nth)
qed


theorem sys_munmap_exact_match_only_witness:
  "sys_munmap example_mmap_env 0x08048000 0x1000 example_areas
     = destroy_result example_mmap_env example_areas 0
   \<and> vm_start (mmap_list example_areas ! 0) = 0x08048000
   \<and> vm_end (mmap_list example_areas ! 0) - vm_start (mmap_list example_areas ! 0) = 0x1000
   \<and> sys_munmap example_mmap_env 0x08048000 0x800 example_areas = (1, example_areas)"
proof -
  have l: "mmap_list example_areas =
             [\<lparr>vm_start = 0x08048000, vm_end = 0x08049000, vm_flags = 0\<rparr>,
              \<lparr>vm_start = 0xBFF00000, vm_end = 0xC0000000, vm_flags = 0\<rparr>]"
    by (simp add: example_areas_def)
  have two: "length (mmap_list example_areas) = Suc (Suc 0)"
    by (simp add: l)
  have a: "sys_munmap example_mmap_env 0x08048000 0x1000 example_areas
             = destroy_result example_mmap_env example_areas 0"
    by (simp add: sys_munmap_def two) (simp add: l destroy_result_def Let_def split_def)
  have b: "vm_start (mmap_list example_areas ! 0) = 0x08048000"
    "vm_end (mmap_list example_areas ! 0) - vm_start (mmap_list example_areas ! 0) = 0x1000"
    by (simp_all add: l)
  have c: "sys_munmap example_mmap_env 0x08048000 0x800 example_areas = (1, example_areas)"
    by (simp add: sys_munmap_def two) (simp add: l Let_def)
  from sys_munmap_exact_match_only [of example_areas "0x08048000" "0x1000" example_mmap_env]
    sys_munmap_exact_match_only [of example_areas "0x08048000" "0x800" example_mmap_env]
    a b c
  show ?thesis by blast
qed

lemma sorted_insert_area:
  assumes "sorted (map vm_start l)"
  shows "sorted (map vm_start (takeWhile (\<lambda>a. vm_start a < start) l
           @ seg\<lparr>vm_start := start\<rparr> # dropWhile (\<lambda>a. vm_start a < start) l))"
proof -
  let ?P = "\<lambda>a. vm_start a < start"
  have 1: "sorted (map vm_start (takeWhile ?P l))"
    using assms by (metis sorted_append takeWhile_dropWhile_id map_append)
  have 2: "sorted (map vm_start (dropWhile ?P l))"
    using assms by (metis sorted_append takeWhile_dropWhile_id map_append)
  have 3: "\<forall>x\<in>set (takeWhile ?P l). vm_start x \<le> start"
    by (auto dest: set_takeWhileD)
  have 4: "\<forall>y\<in>set (dropWhile ?P l). start \<le> vm_start y"
  proof
    fix y
    assume y: "y \<in> set (dropWhile ?P l)"
    then obtain h t where c: "dropWhile ?P l = h # t"
      by (cases "dropWhile ?P l") auto
    have "\<not> ?P h"
      using c by (metis hd_dropWhile list.sel(1) list.discI)
    moreover have "\<forall>z\<in>set t. vm_start h \<le> vm_start z"
      using 2 c by simp
    ultimately show "start \<le> vm_start y"
      using y c by auto
  qed
  have 5: "\<forall>x\<in>set (takeWhile ?P l). \<forall>y\<in>set (dropWhile ?P l). vm_start x \<le> vm_start y"
    using 3 4 by fastforce
  show ?thesis
    using 1 2 3 4 5 by (auto simp add: sorted_append)
qed

lemma sorted_remove_nth:
  "sorted (map f l) \<Longrightarrow> sorted (map f (take i l @ drop (Suc i) l))"
proof -
  assume s: "sorted (map f l)"
  have "sorted (map f (take i l) @ map f (drop i l))"
    using s by (simp flip: map_append)
  moreover have "set (drop (Suc i) l) \<subseteq> set (drop i l)"
    by (simp add: set_drop_subset_set_drop)
  moreover have "sorted (map f (drop (Suc i) l))"
    using s by (simp add: sorted_wrt_drop drop_map [symmetric] del: drop_map)
  ultimately show ?thesis
    by (auto simp add: sorted_append)
qed

lemma mset_remove_nth:
  "i < length l \<Longrightarrow> mset (take i l @ drop (Suc i) l) = mset l - {#l ! i#}"
proof -
  assume i: "i < length l"
  have "l = take i l @ l ! i # drop (Suc i) l"
    using i by (simp add: id_take_nth_drop)
  then have "mset l = mset (take i l @ drop (Suc i) l) + {#l ! i#}"
    by (metis mset.simps(2) mset_append union_mset_add_mset_right add_mset_add_single)
  then show ?thesis by simp
qed


lemma sys_mmap_success:
  assumes "vm_area_create V = spec_vm_area_create ok"
    and "sys_mmap V K addr len prot flags fd off mm = Inr (a, mm1)" and "a \<noteq> 0"
  shows "mmap_list mm1 =
           takeWhile (\<lambda>x. vm_start x < a) (mmap_list mm)
           @ \<lparr>vm_start = a, vm_end = a + len, vm_flags = flags\<rparr>
           # dropWhile (\<lambda>x. vm_start x < a) (mmap_list mm)"
proof -
  obtain start seg mmc where cr: "vm_area_create V mm start len
        (MM_PRESENT K OR MM_RW K OR MM_COW K OR MM_USER K) = Some (seg, mmc)"
    and res: "(case mmap_cache mmc of
                 None \<Rightarrow> Inl NullDereference
               | Some c \<Rightarrow>
                   Inr (vm_start ((mmap_list mmc)[c := (mmap_list mmc ! c)\<lparr>vm_flags := flags\<rparr>] ! seg),
                        mmc\<lparr>mmap_list := (mmap_list mmc)[c := (mmap_list mmc ! c)\<lparr>vm_flags := flags\<rparr>]\<rparr>))
              = Inr (a, mm1)"
    using assms(2,3)
    by (auto simp add: sys_mmap_def Let_def split: option.splits prod.splits if_splits)
  let ?P = "\<lambda>x. vm_start x < start"
  let ?below = "takeWhile ?P (mmap_list mm)"
  let ?seg = "\<lparr>vm_start = start, vm_end = start + len,
               vm_flags = MM_PRESENT K OR MM_RW K OR MM_COW K OR MM_USER K\<rparr>"
  have mmc: "mmap_list mmc = ?below @ ?seg # dropWhile ?P (mmap_list mm)"
    "mmap_cache mmc = Some (length ?below)" "seg = length ?below"
    using cr by (auto simp add: assms(1) spec_vm_area_create_def Let_def split: if_splits)
  have upd: "(mmap_list mmc)[length ?below := (mmap_list mmc ! length ?below)\<lparr>vm_flags := flags\<rparr>]
      = ?below @ \<lparr>vm_start = start, vm_end = start + len, vm_flags = flags\<rparr>
          # dropWhile ?P (mmap_list mm)"
    by (simp add: mmc(1) list_update_append nth_append)
  have "a = start" and "mmap_list mm1 = ?below @ \<lparr>vm_start = start, vm_end = start + len, vm_flags = flags\<rparr>
          # dropWhile ?P (mmap_list mm)"
    using res by (auto simp add: mmc(2,3) upd nth_append)
  then show ?thesis by simp
qed

text \<open>
  C9, with the functions on areas modelled from the spec. When the list of areas is sorted
  by start address with no two areas starting at the same address, a \<open>sys_mmap\<close> that
  returns an address \<open>a\<close> other than \<open>NULL\<close>, followed by \<open>sys_munmap(a, len)\<close> with the same
  length, returns 0 and leaves a list of areas with the same bounds, in the same order, as
  before the \<open>sys_mmap\<close>.
\<close>

theorem mmap_then_munmap_restores_areas:
  assumes "vm_area_create V = spec_vm_area_create ok"
    and "vm_area_destroy V = spec_vm_area_destroy"
    and "sorted (map vm_start (mmap_list mm))" and "distinct (map vm_start (mmap_list mm))"
    and "sys_mmap V K addr len prot flags fd off mm = Inr (a, mm1)" and "a \<noteq> 0"
  shows "\<exists>mm2. sys_munmap V a len mm1 = (0, mm2)
              \<and> map area_bounds (mmap_list mm2) = map area_bounds (mmap_list mm)"
proof -
  let ?l = "mmap_list mm"
  let ?P = "\<lambda>x. vm_start x < a"
  let ?seg = "\<lparr>vm_start = a, vm_end = a + len, vm_flags = flags\<rparr>"
  let ?l1 = "mmap_list mm1"
  have l1: "?l1 = takeWhile ?P ?l @ ?seg # dropWhile ?P ?l"
    by (rule sys_mmap_success [OF assms(1,5,6)])
  have s1: "sorted (map vm_start ?l1)"
    using sorted_insert_area [OF assms(3), of a ?seg] by (simp add: l1)
  have m1: "mset (map area_bounds ?l1) = mset (map area_bounds ?l) + {#(a, a + len)#}"
  proof -
    have e: "mset (takeWhile ?P ?l) + mset (dropWhile ?P ?l) = mset ?l"
      by (metis mset_append takeWhile_dropWhile_id)
    have "mset ?l1 = (mset (takeWhile ?P ?l) + mset (dropWhile ?P ?l)) + {#?seg#}"
      by (simp add: l1)
    then have "mset ?l1 = mset ?l + {#?seg#}"
      by (simp only: e)
    then have "mset (map area_bounds ?l1) = mset (map area_bounds ?l) + {#area_bounds ?seg#}"
      by (metis image_mset_single image_mset_union mset_map)
    then show ?thesis
      by (simp add: area_bounds_def)
  qed
  have c: "length (takeWhile ?P ?l) < length ?l1"
    "area_matches a len (?l1 ! length (takeWhile ?P ?l))"
    by (simp_all add: l1 nth_append area_matches_def)
  from munmap_scan_result [of "length ?l1" mm1 a len V] c
  obtain i where i: "i < length ?l1" "area_matches a len (?l1 ! i)"
    "sys_munmap V a len mm1 = destroy_result V mm1 i"
    unfolding sys_munmap_def by auto
  let ?l2 = "take i ?l1 @ drop (Suc i) ?l1"
  have r: "sys_munmap V a len mm1 = (0, mm1\<lparr>mmap_list := ?l2, mmap_cache := None\<rparr>)"
    by (simp add: i(3) destroy_result_def assms(2) spec_vm_area_destroy_def)
  have bi: "area_bounds (?l1 ! i) = (a, a + len)"
    using i(2) by (auto simp add: area_matches_def area_bounds_def)
  have m2: "mset (map area_bounds ?l2) = mset (map area_bounds ?l)"
  proof -
    have "mset ?l2 = mset ?l1 - {#?l1 ! i#}"
      by (rule mset_remove_nth [OF i(1)])
    moreover have "?l1 ! i \<in># mset ?l1"
      using i(1) by simp
    ultimately have "mset ?l1 = mset ?l2 + {#?l1 ! i#}"
      by simp
    then have "mset (map area_bounds ?l1) = mset (map area_bounds ?l2) + {#area_bounds (?l1 ! i)#}"
      by (metis image_mset_single image_mset_union mset_map)
    with m1 bi show ?thesis by simp
  qed
  have s2: "sorted (map vm_start ?l2)"
    by (rule sorted_remove_nth [OF s1])
  have fst_b: "fst \<circ> area_bounds = vm_start"
    by (rule ext) (simp add: area_bounds_def)
  have d: "distinct (map fst (map area_bounds ?l))"
    using assms(4) by (simp add: fst_b)
  have d2: "distinct (map fst (map area_bounds ?l2))"
  proof -
    have e: "mset (map fst (map area_bounds ?l2)) = mset (map fst (map area_bounds ?l))"
      using m2 by (metis mset_map)
    show ?thesis
      using d mset_eq_imp_distinct_iff [OF e] by blast
  qed
  have "map area_bounds ?l2 = map area_bounds ?l"
  proof (rule map_sorted_distinct_set_unique [where f = fst])
    show "inj_on fst (set (map area_bounds ?l2) \<union> set (map area_bounds ?l))"
      using d m2 by (metis distinct_map mset_eq_setD sup.idem)
    show "sorted (map fst (map area_bounds ?l2))"
      using s2 by (simp add: fst_b)
    show "distinct (map fst (map area_bounds ?l2))"
      by (rule d2)
    show "sorted (map fst (map area_bounds ?l))"
      using assms(3) by (simp add: fst_b)
    show "distinct (map fst (map area_bounds ?l))"
      by (rule d)
    show "set (map area_bounds ?l2) = set (map area_bounds ?l)"
      using m2 by (rule mset_eq_setD)
  qed
  with r show ?thesis
    by simp
qed


theorem mmap_then_munmap_restores_areas_witness:
  "vm_area_create example_mmap_env = spec_vm_area_create True
   \<and> vm_area_destroy example_mmap_env = spec_vm_area_destroy
   \<and> sorted (map vm_start (mmap_list example_areas))
   \<and> distinct (map vm_start (mmap_list example_areas))
   \<and> (\<exists>mm1. sys_mmap example_mmap_env example_flags 0 0x2000 3 0 3 0 example_areas
               = Inr (0x40000000, mm1)
             \<and> (\<exists>mm2. sys_munmap example_mmap_env 0x40000000 0x2000 mm1 = (0, mm2)
                      \<and> map area_bounds (mmap_list mm2)
                          = map area_bounds (mmap_list example_areas)))"
proof -
  let ?M = "example_areas\<lparr>mmap_list :=
              [\<lparr>vm_start = 0x08048000, vm_end = 0x08049000, vm_flags = 0\<rparr>,
               \<lparr>vm_start = 0x40000000, vm_end = 0x40002000, vm_flags = 0\<rparr>,
               \<lparr>vm_start = 0xBFF00000, vm_end = 0xC0000000, vm_flags = 0\<rparr>],
            mmap_cache := Some 1\<rparr>"
  have c: "vm_area_create example_mmap_env = spec_vm_area_create True"
    and d: "vm_area_destroy example_mmap_env = spec_vm_area_destroy"
    by (simp_all add: example_mmap_env_def)
  have s: "sorted (map vm_start (mmap_list example_areas))"
    and u: "distinct (map vm_start (mmap_list example_areas))"
    by (simp_all add: example_areas_def)
  have m: "sys_mmap example_mmap_env example_flags 0 0x2000 3 0 3 0 example_areas
             = Inr (0x40000000, ?M)"
    by (simp add: sys_mmap_def example_mmap_env_def example_fget_def example_fstat_def
          example_search_def spec_vm_area_create_def example_areas_def Let_def)
  have n: "(0x40000000 :: u32) \<noteq> 0"
    by simp
  from mmap_then_munmap_restores_areas [OF c d s u m n] c d s u m
  show ?thesis by blast
qed

end
